theory Spec2Isabelle
  imports Complex_Main "HOL-Library.Word" "HOL-Library.Signed_Division"
begin

section \<open>Steering-wheel button sketches for the CSR8645 module\<close>

text \<open>
  The repository holds two Arduino sketches. The first (\<^verbatim>\<open>mazda3bk-bt.ino\<close>) averages
  ten analog samples and drives MUTE, PREV, NEXT and RESET; the second
  (\<^verbatim>\<open>unnamed/part_000\<close>) averages five and drives POWER\_EN, PREV and NEXT, with a
  blocking delay after each latch. Both keep their data in global variables; the model
  keeps them in one record that every function takes and returns. Names of the second
  sketch that clash with the first carry the suffix \<open>_v2\<close>.

  Numbers. \<^verbatim>\<open>unsigned long\<close> is 32 bits on the AVR: time stamps and durations are
  \<open>32 word\<close>, so \<^verbatim>\<open>millis() - startTime\<close> wraps as it does on the chip.
  \<^verbatim>\<open>float\<close> values are modelled by exact reals. Every sample is \<open>5 r / 1024\<close>
  for a 16-bit integer \<open>r\<close>, and so is every partial sum of at most ten of them: all of
  these are binary32 numbers, so the only operations that round on the chip are the final
  division by the number of samples and the decimal band limits.
\<close>

subsection \<open>The globals and the board\<close>

datatype level = LOW | HIGH

datatype event = DigitalWrite nat level | Delay "32 word"

record state =
  startTime1 :: "32 word"
  startTime2 :: "32 word"
  startTime3 :: "32 word"
  condition1Active :: bool
  condition2Active :: bool
  condition3Active :: bool
  readings :: "real list"
  readIndex :: int
  filteredVoltage :: real
  clock :: "32 word"
  pins :: "nat \<Rightarrow> level"
  trace :: "event list"

text \<open>
  \<open>clock\<close> is the millisecond counter that \<^verbatim>\<open>millis()\<close> reads, \<open>pins\<close> the output
  latches, and \<open>trace\<close> the calls of \<^verbatim>\<open>digitalWrite\<close> and \<^verbatim>\<open>delay\<close> in the order
  they were made. Statements other than \<^verbatim>\<open>delay\<close> take no time in the model; the time
  the environment lets pass is an input of \<open>loop\<close>.
\<close>

definition millis :: "state \<Rightarrow> 32 word" where
  "millis s = clock s"

definition delay :: "32 word \<Rightarrow> state \<Rightarrow> state" where
  "delay ms s = s\<lparr>clock := clock s + ms, trace := trace s @ [Delay ms]\<rparr>"

definition digitalWrite :: "nat \<Rightarrow> level \<Rightarrow> state \<Rightarrow> state" where
  "digitalWrite pin val s =
     s\<lparr>pins := (pins s)(pin := val), trace := trace s @ [DigitalWrite pin val]\<rparr>"

subsection \<open>First sketch: constants\<close>

definition VOLTAGE_LOW_1 :: real where "VOLTAGE_LOW_1 = 370 / 100"
definition VOLTAGE_HIGH_1 :: real where "VOLTAGE_HIGH_1 = 390 / 100"
definition VOLTAGE_LOW_2 :: real where "VOLTAGE_LOW_2 = 230 / 100"
definition VOLTAGE_HIGH_2 :: real where "VOLTAGE_HIGH_2 = 250 / 100"
definition VOLTAGE_LOW_3 :: real where "VOLTAGE_LOW_3 = 150 / 100"
definition VOLTAGE_HIGH_3 :: real where "VOLTAGE_HIGH_3 = 180 / 100"

definition DURATION_THRESHOLD_1 :: "32 word" where "DURATION_THRESHOLD_1 = 300"
definition DURATION_THRESHOLD_2 :: "32 word" where "DURATION_THRESHOLD_2 = 3000"
definition INITIAL_DELAY :: "32 word" where "INITIAL_DELAY = 3000"

definition MUTE_PIN :: nat where "MUTE_PIN = 3"
definition PREV_PIN :: nat where "PREV_PIN = 4"
definition NEXT_PIN :: nat where "NEXT_PIN = 5"
definition RESET_PIN :: nat where "RESET_PIN = 6"

definition numReadings :: nat where "numReadings = 10"

subsection \<open>First sketch: the filter\<close>

text \<open>
  \<^verbatim>\<open>readings[readIndex] = (float) (analogRead(SIGNAL_PIN) * 5.0) / 1024\<close>: the argument
  \<open>r\<close> is what \<^verbatim>\<open>analogRead\<close> returned.
\<close>

definition toVolts :: "int \<Rightarrow> real" where
  "toVolts r = (real_of_int r * 5) / 1024"

text \<open>
  \<^verbatim>\<open>readIndex\<close> is a C \<^verbatim>\<open>int\<close> and \<^verbatim>\<open>%\<close> truncates towards zero (\<open>smod\<close>). A
  store outside the array is undefined in C; \<open>readIndex_in_range\<close> below shows that no
  run reaches one.
\<close>

definition readVoltage :: "int \<Rightarrow> state \<Rightarrow> state" where
  "readVoltage r s =
     (let rs = (readings s)[nat (readIndex s) := toVolts r];
          i = (readIndex s + 1) smod int numReadings;
          total = fold (\<lambda>j acc. acc + rs ! j) [0..<numReadings] 0
      in s\<lparr>readings := rs, readIndex := i, filteredVoltage := total / real numReadings\<rparr>)"

subsection \<open>First sketch: the three bands\<close>

definition checkCondition1 :: "state \<Rightarrow> state" where
  "checkCondition1 s =
     (if filteredVoltage s \<ge> VOLTAGE_LOW_1 \<and> filteredVoltage s \<le> VOLTAGE_HIGH_1 then
        (if \<not> condition1Active s then
           (if startTime1 s = 0 then s\<lparr>startTime1 := millis s\<rparr>
            else if millis s - startTime1 s \<ge> DURATION_THRESHOLD_1 then
              digitalWrite MUTE_PIN HIGH (s\<lparr>condition1Active := True\<rparr>)
            else if millis s - startTime1 s \<ge> DURATION_THRESHOLD_2 then
              digitalWrite RESET_PIN HIGH (s\<lparr>condition1Active := True\<rparr>)
            else s)
         else s)
      else
        (let s' = (if condition1Active s
                   then digitalWrite RESET_PIN LOW (digitalWrite MUTE_PIN LOW s)
                   else s)
         in s'\<lparr>condition1Active := False, startTime1 := 0\<rparr>))"

definition checkCondition2 :: "state \<Rightarrow> state" where
  "checkCondition2 s =
     (if filteredVoltage s \<ge> VOLTAGE_LOW_2 \<and> filteredVoltage s \<le> VOLTAGE_HIGH_2 then
        (if \<not> condition2Active s then
           (if startTime2 s = 0 then s\<lparr>startTime2 := millis s\<rparr>
            else if millis s - startTime2 s \<ge> DURATION_THRESHOLD_1 then
              digitalWrite PREV_PIN HIGH (s\<lparr>condition2Active := True\<rparr>)
            else s)
         else s)
      else
        (let s' = (if condition2Active s then digitalWrite PREV_PIN LOW s else s)
         in s'\<lparr>condition2Active := False, startTime2 := 0\<rparr>))"

definition checkCondition3 :: "state \<Rightarrow> state" where
  "checkCondition3 s =
     (if filteredVoltage s \<ge> VOLTAGE_LOW_3 \<and> filteredVoltage s \<le> VOLTAGE_HIGH_3 then
        (if \<not> condition3Active s then
           (if startTime3 s = 0 then s\<lparr>startTime3 := millis s\<rparr>
            else if millis s - startTime3 s \<ge> DURATION_THRESHOLD_1 then
              digitalWrite NEXT_PIN HIGH (s\<lparr>condition3Active := True\<rparr>)
            else s)
         else s)
      else
        (let s' = (if condition3Active s then digitalWrite NEXT_PIN LOW s else s)
         in s'\<lparr>condition3Active := False, startTime3 := 0\<rparr>))"

subsection \<open>First sketch: start-up and the polling loop\<close>

text \<open>
  The globals as their initialisers leave them, the array of static storage zeroed, the
  outputs low and the counter at zero.
\<close>

definition power_on :: state where
  "power_on = \<lparr>startTime1 = 0, startTime2 = 0, startTime3 = 0,
     condition1Active = False, condition2Active = False, condition3Active = False,
     readings = replicate numReadings 0, readIndex = 0, filteredVoltage = 0,
     clock = 0, pins = (\<lambda>_. LOW), trace = []\<rparr>"

text \<open>
  The start-up function of the sketch (its name is a keyword here, hence the suffix).
  \<^verbatim>\<open>analogReference\<close> and \<^verbatim>\<open>pinMode\<close> configure the board and change none of the
  modelled data.
\<close>

definition setup_sketch :: "state \<Rightarrow> state" where
  "setup_sketch s =
     (let s1 = s\<lparr>readings := fold (\<lambda>i rs. rs[i := 0]) [0..<numReadings] (readings s)\<rparr>
      in digitalWrite RESET_PIN LOW (delay INITIAL_DELAY (digitalWrite RESET_PIN HIGH s1)))"

text \<open>
  One pass of \<^verbatim>\<open>loop()\<close>: \<open>r\<close> is the sample \<^verbatim>\<open>analogRead\<close> returns and \<open>e\<close> the
  time, in milliseconds, that passed since the previous pass returned.
\<close>

definition loop :: "int \<times> 32 word \<Rightarrow> state \<Rightarrow> state" where
  "loop i s =
     (case i of (r, e) \<Rightarrow>
        delay 20 (checkCondition3 (checkCondition2 (checkCondition1
          (readVoltage r (s\<lparr>clock := clock s + e\<rparr>))))))"

subsection \<open>Second sketch: constants\<close>

definition VOLTAGE_LOW_1_v2 :: real where "VOLTAGE_LOW_1_v2 = 385 / 100"
definition VOLTAGE_HIGH_1_v2 :: real where "VOLTAGE_HIGH_1_v2 = 405 / 100"
definition VOLTAGE_LOW_2_v2 :: real where "VOLTAGE_LOW_2_v2 = 252 / 100"
definition VOLTAGE_HIGH_2_v2 :: real where "VOLTAGE_HIGH_2_v2 = 272 / 100"
definition VOLTAGE_LOW_3_v2 :: real where "VOLTAGE_LOW_3_v2 = 178 / 100"
definition VOLTAGE_HIGH_3_v2 :: real where "VOLTAGE_HIGH_3_v2 = 198 / 100"

definition DURATION_THRESHOLD_1_v2 :: "32 word" where "DURATION_THRESHOLD_1_v2 = 3000"
definition DURATION_THRESHOLD_2_v2 :: "32 word" where "DURATION_THRESHOLD_2_v2 = 300"
definition INITIAL_DELAY_v2 :: "32 word" where "INITIAL_DELAY_v2 = 5000"

definition START_STOP_PIN :: nat where "START_STOP_PIN = 5"
definition PREV_PIN_v2 :: nat where "PREV_PIN_v2 = 4"
definition NEXT_PIN_v2 :: nat where "NEXT_PIN_v2 = 3"
definition POWER_EN_PIN :: nat where "POWER_EN_PIN = 6"

definition NUM_READINGS :: nat where "NUM_READINGS = 5"

subsection \<open>Second sketch: the filter\<close>

definition readVoltage_v2 :: "int \<Rightarrow> state \<Rightarrow> state" where
  "readVoltage_v2 r s =
     (let rs = (readings s)[nat (readIndex s) := toVolts r];
          i = (readIndex s + 1) smod int NUM_READINGS;
          total = fold (\<lambda>j acc. acc + rs ! j) [0..<NUM_READINGS] 0
      in s\<lparr>readings := rs, readIndex := i, filteredVoltage := total / real NUM_READINGS\<rparr>)"

subsection \<open>Second sketch: the three bands\<close>

text \<open>POWER\_EN is active low: the latch drives it LOW and the release drives it HIGH.\<close>

definition checkCondition1_v2 :: "state \<Rightarrow> state" where
  "checkCondition1_v2 s =
     (if filteredVoltage s \<ge> VOLTAGE_LOW_1_v2 \<and> filteredVoltage s \<le> VOLTAGE_HIGH_1_v2 then
        (if \<not> condition1Active s then
           (if startTime1 s = 0 then s\<lparr>startTime1 := millis s\<rparr>
            else if millis s - startTime1 s \<ge> DURATION_THRESHOLD_1_v2 then
              delay DURATION_THRESHOLD_2_v2
                (digitalWrite POWER_EN_PIN LOW (s\<lparr>condition1Active := True\<rparr>))
            else s)
         else s)
      else
        (let s' = (if condition1Active s then digitalWrite POWER_EN_PIN HIGH s else s)
         in s'\<lparr>condition1Active := False, startTime1 := 0\<rparr>))"

definition checkCondition2_v2 :: "state \<Rightarrow> state" where
  "checkCondition2_v2 s =
     (if filteredVoltage s \<ge> VOLTAGE_LOW_2_v2 \<and> filteredVoltage s \<le> VOLTAGE_HIGH_2_v2 then
        (if \<not> condition2Active s then
           (if startTime2 s = 0 then s\<lparr>startTime2 := millis s\<rparr>
            else if millis s - startTime2 s \<ge> DURATION_THRESHOLD_2_v2 then
              delay DURATION_THRESHOLD_2_v2
                (digitalWrite PREV_PIN_v2 HIGH (s\<lparr>condition2Active := True\<rparr>))
            else s)
         else s)
      else
        (let s' = (if condition2Active s then digitalWrite PREV_PIN_v2 LOW s else s)
         in s'\<lparr>condition2Active := False, startTime2 := 0\<rparr>))"

definition checkCondition3_v2 :: "state \<Rightarrow> state" where
  "checkCondition3_v2 s =
     (if filteredVoltage s \<ge> VOLTAGE_LOW_3_v2 \<and> filteredVoltage s \<le> VOLTAGE_HIGH_3_v2 then
        (if \<not> condition3Active s then
           (if startTime3 s = 0 then s\<lparr>startTime3 := millis s\<rparr>
            else if millis s - startTime3 s \<ge> DURATION_THRESHOLD_2_v2 then
              delay DURATION_THRESHOLD_2_v2
                (digitalWrite NEXT_PIN_v2 HIGH (s\<lparr>condition3Active := True\<rparr>))
            else s)
         else s)
      else
        (let s' = (if condition3Active s then digitalWrite NEXT_PIN_v2 LOW s else s)
         in s'\<lparr>condition3Active := False, startTime3 := 0\<rparr>))"

subsection \<open>Second sketch: start-up and the polling loop\<close>

definition power_on_v2 :: state where
  "power_on_v2 = \<lparr>startTime1 = 0, startTime2 = 0, startTime3 = 0,
     condition1Active = False, condition2Active = False, condition3Active = False,
     readings = replicate NUM_READINGS 0, readIndex = 0, filteredVoltage = 0,
     clock = 0, pins = (\<lambda>_. LOW), trace = []\<rparr>"

definition setup_sketch_v2 :: "state \<Rightarrow> state" where
  "setup_sketch_v2 s =
     (let s1 = s\<lparr>readings := fold (\<lambda>i rs. rs[i := 0]) [0..<NUM_READINGS] (readings s)\<rparr>
      in digitalWrite POWER_EN_PIN HIGH
           (delay INITIAL_DELAY_v2 (digitalWrite POWER_EN_PIN LOW s1)))"

definition loop_v2 :: "int \<times> 32 word \<Rightarrow> state \<Rightarrow> state" where
  "loop_v2 i s =
     (case i of (r, e) \<Rightarrow>
        delay 10 (checkCondition3_v2 (checkCondition2_v2 (checkCondition1_v2
          (readVoltage_v2 r (s\<lparr>clock := clock s + e\<rparr>))))))"

subsection \<open>Runs\<close>

text \<open>
  A run of the sketch is start-up followed by passes of the loop, one per input.
  \<open>foldl\<close> takes the inputs in the order they arrive.
\<close>

definition run :: "(int \<times> 32 word) list \<Rightarrow> state" where
  "run ins = foldl (\<lambda>s i. loop i s) (setup_sketch power_on) ins"

definition run_v2 :: "(int \<times> 32 word) list \<Rightarrow> state" where
  "run_v2 ins = foldl (\<lambda>s i. loop_v2 i s) (setup_sketch_v2 power_on_v2) ins"

text \<open>
  What one band sees at a tick: the filter has left \<open>v\<close> in \<^verbatim>\<open>filteredVoltage\<close> and
  the millisecond counter reads \<open>t\<close>. \<open>at_tick v t s\<close> is the state \<open>s\<close> at such a tick, and
  \<open>ticks f\<close> runs the band function \<open>f\<close> over a list of ticks.
\<close>

definition at_tick :: "real \<Rightarrow> 32 word \<Rightarrow> state \<Rightarrow> state" where
  "at_tick v t s = s\<lparr>filteredVoltage := v, clock := t\<rparr>"

definition ticks :: "(state \<Rightarrow> state) \<Rightarrow> (real \<times> 32 word) list \<Rightarrow> state \<Rightarrow> state" where
  "ticks f obs s = foldl (\<lambda>s' (v, t). f (at_tick v t s')) s obs"

subsection \<open>Vocabulary of the properties\<close>

text \<open>
  Modelled from the spec: \<open>ADC_MAX\<close>, the largest count the converter returns.
  \<^verbatim>\<open>analogRead\<close> belongs to the Arduino core, which is not part of the repository; the
  converter of the ATmega boards the sketches are written for has ten bits, so its counts
  are \<open>0..1023\<close>.
\<close>

definition ADC_MAX :: int where "ADC_MAX = 1023"

text \<open>The sample buffer has its \<open>n\<close> slots and the write index points at one of them.\<close>

definition buffer_ok :: "nat \<Rightarrow> state \<Rightarrow> bool" where
  "buffer_ok n s = (length (readings s) = n \<and> 0 \<le> readIndex s \<and> readIndex s < int n)"

text \<open>The filtered voltage lies in a band, limits included, as the sketches test it.\<close>

definition in_band1 :: "real \<Rightarrow> bool" where
  "in_band1 v = (v \<ge> VOLTAGE_LOW_1 \<and> v \<le> VOLTAGE_HIGH_1)"
definition in_band2 :: "real \<Rightarrow> bool" where
  "in_band2 v = (v \<ge> VOLTAGE_LOW_2 \<and> v \<le> VOLTAGE_HIGH_2)"
definition in_band3 :: "real \<Rightarrow> bool" where
  "in_band3 v = (v \<ge> VOLTAGE_LOW_3 \<and> v \<le> VOLTAGE_HIGH_3)"
definition in_band1_v2 :: "real \<Rightarrow> bool" where
  "in_band1_v2 v = (v \<ge> VOLTAGE_LOW_1_v2 \<and> v \<le> VOLTAGE_HIGH_1_v2)"
definition in_band2_v2 :: "real \<Rightarrow> bool" where
  "in_band2_v2 v = (v \<ge> VOLTAGE_LOW_2_v2 \<and> v \<le> VOLTAGE_HIGH_2_v2)"
definition in_band3_v2 :: "real \<Rightarrow> bool" where
  "in_band3_v2 v = (v \<ge> VOLTAGE_LOW_3_v2 \<and> v \<le> VOLTAGE_HIGH_3_v2)"

text \<open>A band whose flag is set has a recorded entry time, for each of the three bands.\<close>

definition latched_has_entry :: "state \<Rightarrow> bool" where
  "latched_has_entry s =
     ((condition1Active s \<longrightarrow> startTime1 s \<noteq> 0)
      \<and> (condition2Active s \<longrightarrow> startTime2 s \<noteq> 0)
      \<and> (condition3Active s \<longrightarrow> startTime3 s \<noteq> 0))"

text \<open>
  What leaving a band means for a band function \<open>f\<close> with band test \<open>inb\<close>, flag \<open>act\<close>,
  start time \<open>st\<close> and release writes \<open>outs\<close>. A call that finds the voltage outside
  the band clears the flag and the start time, and makes the release writes exactly when
  the flag was set. A call that finds the voltage inside the band with the flag set
  changes nothing. And from a latched state, any number of in-band ticks followed by one
  out-of-band tick ends with the flag and the start time cleared and the release writes
  made once.
\<close>

definition band_exit ::
  "(state \<Rightarrow> state) \<Rightarrow> (real \<Rightarrow> bool) \<Rightarrow> (state \<Rightarrow> bool) \<Rightarrow> (state \<Rightarrow> 32 word)
     \<Rightarrow> (nat \<times> level) list \<Rightarrow> bool" where
  "band_exit f inb act st outs =
     ((\<forall>s. \<not> inb (filteredVoltage s) \<longrightarrow>
          \<not> act (f s) \<and> st (f s) = 0
          \<and> trace (f s) = trace s @ (if act s then map (\<lambda>(p, l). DigitalWrite p l) outs else [])
          \<and> (act s \<longrightarrow> (\<forall>(p, l)\<in>set outs. pins (f s) p = l)))
      \<and> (\<forall>s. inb (filteredVoltage s) \<and> act s \<longrightarrow> f s = s)
      \<and> (\<forall>s obs w x. act s \<and> (\<forall>(v, t)\<in>set obs. inb v) \<and> \<not> inb w \<longrightarrow>
          \<not> act (ticks f (obs @ [(w, x)]) s) \<and> st (ticks f (obs @ [(w, x)]) s) = 0
          \<and> trace (ticks f (obs @ [(w, x)]) s) = trace s @ map (\<lambda>(p, l). DigitalWrite p l) outs
          \<and> (\<forall>(p, l)\<in>set outs. pins (ticks f (obs @ [(w, x)]) s) p = l)))"

text \<open>
  The writes of one occupancy of a band with hold time \<open>T\<close>, activation events \<open>on\<close>
  and release events \<open>off\<close>. No event occurs twice in \<open>on @ off\<close>. Over in-band
  ticks \<open>obs\<close> met with the flag clear the trace grows by \<open>on\<close> if the band latched
  and by nothing otherwise; the out-of-band tick that closes the occupancy adds \<open>off\<close>
  exactly if the band had latched, and leaves the band idle. When the band latches: a
  band whose entry is already stored latches exactly when some tick finds \<open>T\<close> elapsed
  since the stored time, and an idle band whose first tick comes at a counter value
  \<open>t0\<close> other than 0 latches exactly when some later tick finds \<open>T\<close> elapsed since
  \<open>t0\<close>.
\<close>

definition band_occupancy ::
  "(state \<Rightarrow> state) \<Rightarrow> (real \<Rightarrow> bool) \<Rightarrow> (state \<Rightarrow> bool) \<Rightarrow> (state \<Rightarrow> 32 word)
     \<Rightarrow> 32 word \<Rightarrow> event list \<Rightarrow> event list \<Rightarrow> bool" where
  "band_occupancy f inb act st T on off =
     (distinct (on @ off)
      \<and> (\<forall>s obs w x. \<not> act s \<and> (\<forall>(v, t)\<in>set obs. inb v) \<and> \<not> inb w \<longrightarrow>
        trace (ticks f obs s) = trace s @ (if act (ticks f obs s) then on else [])
        \<and> trace (ticks f (obs @ [(w, x)]) s)
            = trace s @ (if act (ticks f obs s) then on @ off else [])
        \<and> \<not> act (ticks f (obs @ [(w, x)]) s) \<and> st (ticks f (obs @ [(w, x)]) s) = 0
        \<and> (st s \<noteq> 0 \<longrightarrow> act (ticks f obs s) = (\<exists>(v, t)\<in>set obs. t - st s \<ge> T))
        \<and> (st s = 0 \<longrightarrow>
             (\<forall>v0 t0 rest. obs = (v0, t0) # rest \<and> t0 \<noteq> 0 \<longrightarrow>
                act (ticks f obs s) = (\<exists>(v, t)\<in>set rest. t - t0 \<ge> T)))))"

section \<open>The filter\<close>

lemmas board_defs = millis_def delay_def digitalWrite_def

lemma smod_step: "0 \<le> i \<Longrightarrow> 0 < n \<Longrightarrow> (i + 1) smod n = (i + 1) mod (n::int)"
  by (simp add: signed_modulo_int_def sgn_if abs_if)

lemma readVoltage_readings:
  "readings (readVoltage r s) = (readings s)[nat (readIndex s) := toVolts r]"
  by (simp add: readVoltage_def Let_def)

lemma readVoltage_v2_readings:
  "readings (readVoltage_v2 r s) = (readings s)[nat (readIndex s) := toVolts r]"
  by (simp add: readVoltage_v2_def Let_def)

lemma readVoltage_readIndex:
  "readIndex (readVoltage r s) = (readIndex s + 1) smod int numReadings"
  by (simp add: readVoltage_def Let_def)

lemma readVoltage_v2_readIndex:
  "readIndex (readVoltage_v2 r s) = (readIndex s + 1) smod int NUM_READINGS"
  by (simp add: readVoltage_v2_def Let_def)

lemma readVoltage_buffer_ok:
  "buffer_ok numReadings s \<Longrightarrow> buffer_ok numReadings (readVoltage r s)"
  by (simp add: buffer_ok_def readVoltage_readings readVoltage_readIndex smod_step
      numReadings_def)

lemma readVoltage_v2_buffer_ok:
  "buffer_ok NUM_READINGS s \<Longrightarrow> buffer_ok NUM_READINGS (readVoltage_v2 r s)"
  by (simp add: buffer_ok_def readVoltage_v2_readings readVoltage_v2_readIndex smod_step
      NUM_READINGS_def)

text \<open>The band functions, \<^verbatim>\<open>delay\<close> and the rest of a pass leave the filter's data alone.\<close>

lemma checkCondition1_buffer [simp]:
  "readings (checkCondition1 s) = readings s" "readIndex (checkCondition1 s) = readIndex s"
  "filteredVoltage (checkCondition1 s) = filteredVoltage s"
  by (simp_all add: checkCondition1_def board_defs Let_def)

lemma checkCondition2_buffer [simp]:
  "readings (checkCondition2 s) = readings s" "readIndex (checkCondition2 s) = readIndex s"
  "filteredVoltage (checkCondition2 s) = filteredVoltage s"
  by (simp_all add: checkCondition2_def board_defs Let_def)

lemma checkCondition3_buffer [simp]:
  "readings (checkCondition3 s) = readings s" "readIndex (checkCondition3 s) = readIndex s"
  "filteredVoltage (checkCondition3 s) = filteredVoltage s"
  by (simp_all add: checkCondition3_def board_defs Let_def)

lemma checkCondition1_v2_buffer [simp]:
  "readings (checkCondition1_v2 s) = readings s"
  "readIndex (checkCondition1_v2 s) = readIndex s"
  "filteredVoltage (checkCondition1_v2 s) = filteredVoltage s"
  by (simp_all add: checkCondition1_v2_def board_defs Let_def)

lemma checkCondition2_v2_buffer [simp]:
  "readings (checkCondition2_v2 s) = readings s"
  "readIndex (checkCondition2_v2 s) = readIndex s"
  "filteredVoltage (checkCondition2_v2 s) = filteredVoltage s"
  by (simp_all add: checkCondition2_v2_def board_defs Let_def)

lemma checkCondition3_v2_buffer [simp]:
  "readings (checkCondition3_v2 s) = readings s"
  "readIndex (checkCondition3_v2 s) = readIndex s"
  "filteredVoltage (checkCondition3_v2 s) = filteredVoltage s"
  by (simp_all add: checkCondition3_v2_def board_defs Let_def)

lemma delay_buffer [simp]:
  "readings (delay d s) = readings s" "readIndex (delay d s) = readIndex s"
  "filteredVoltage (delay d s) = filteredVoltage s"
  by (simp_all add: delay_def)

lemma loop_buffer:
  "readings (loop (r, e) s) = readings (readVoltage r s)"
  "readIndex (loop (r, e) s) = readIndex (readVoltage r s)"
  "filteredVoltage (loop (r, e) s) = filteredVoltage (readVoltage r s)"
  by (simp_all add: loop_def) (simp_all add: readVoltage_def Let_def)

lemma loop_v2_buffer:
  "readings (loop_v2 (r, e) s) = readings (readVoltage_v2 r s)"
  "readIndex (loop_v2 (r, e) s) = readIndex (readVoltage_v2 r s)"
  "filteredVoltage (loop_v2 (r, e) s) = filteredVoltage (readVoltage_v2 r s)"
  by (simp_all add: loop_v2_def) (simp_all add: readVoltage_v2_def Let_def)

lemma fold_zero_length [simp]:
  "length (fold (\<lambda>i rs. rs[i := (0::real)]) is xs) = length xs"
  by (induction "is" arbitrary: xs) simp_all

lemma setup_buffer_ok: "buffer_ok numReadings (setup_sketch power_on)"
  by (simp add: buffer_ok_def setup_sketch_def power_on_def board_defs Let_def
      numReadings_def)

lemma setup_v2_buffer_ok: "buffer_ok NUM_READINGS (setup_sketch_v2 power_on_v2)"
  by (simp add: buffer_ok_def setup_sketch_v2_def power_on_v2_def board_defs Let_def
      NUM_READINGS_def)

lemma loop_buffer_ok: "buffer_ok numReadings s \<Longrightarrow> buffer_ok numReadings (loop i s)"
  using readVoltage_buffer_ok [of s "fst i"]
  by (cases i) (simp add: buffer_ok_def loop_buffer)

lemma loop_v2_buffer_ok: "buffer_ok NUM_READINGS s \<Longrightarrow> buffer_ok NUM_READINGS (loop_v2 i s)"
  using readVoltage_v2_buffer_ok [of s "fst i"]
  by (cases i) (simp add: buffer_ok_def loop_v2_buffer)

lemma readIndex_in_range: "buffer_ok numReadings (run ins)"
  unfolding run_def
  by (induction ins rule: rev_induct) (simp_all add: setup_buffer_ok loop_buffer_ok)

lemma readIndex_in_range_v2: "buffer_ok NUM_READINGS (run_v2 ins)"
  unfolding run_v2_def
  by (induction ins rule: rev_induct) (simp_all add: setup_v2_buffer_ok loop_v2_buffer_ok)

subsection \<open>The scale of a sample\<close>

text \<open>
  Claim C6, as stated: for every raw reading \<open>r\<close> in \<open>[0, ADC_MAX]\<close> the value stored in
  the buffer is \<open>r * 5.0 / ADC_MAX\<close>, with \<open>ADC_MAX\<close> the largest count of the converter.
  It fails at the full-scale reading: the sketches divide by 1024, so the count 1023 is
  stored as \<open>5115 / 1024\<close> and not as \<open>5\<close>.
\<close>

theorem toVolts_full_scale_counterexample:
  "readings (readVoltage ADC_MAX power_on) ! nat (readIndex power_on)
     \<noteq> real_of_int ADC_MAX * 5 / real_of_int ADC_MAX"
  by (simp add: readVoltage_readings power_on_def toVolts_def ADC_MAX_def numReadings_def)

text \<open>
  Claim C6, amended: the value stored in the slot at the write index is \<open>r * 5 / 1024\<close>
  in both sketches, for every reading \<open>r\<close>; for the counts of the converter this is
  \<open>r * 5 / (ADC_MAX + 1)\<close>, the divisor being the number of levels and not the largest
  count.
\<close>

theorem readVoltage_stores_scaled:
  assumes "0 \<le> readIndex s" and "nat (readIndex s) < length (readings s)"
  shows "readings (readVoltage r s) ! nat (readIndex s) = real_of_int r * 5 / 1024
       \<and> readings (readVoltage_v2 r s) ! nat (readIndex s) = real_of_int r * 5 / 1024
       \<and> (0 \<le> r \<and> r \<le> ADC_MAX \<longrightarrow>
            readings (readVoltage r s) ! nat (readIndex s)
              = real_of_int r * 5 / real_of_int (ADC_MAX + 1))"
  using assms
  by (simp add: readVoltage_readings readVoltage_v2_readings toVolts_def ADC_MAX_def)

text \<open>Witness for C6: the full-scale count in the first slot of either sketch.\<close>

theorem readVoltage_stores_scaled_witness:
  "readings (readVoltage 1023 power_on) ! 0 = 5115 / 1024
   \<and> readings (readVoltage_v2 1023 power_on_v2) ! 0 = 5115 / 1024"
  using readVoltage_stores_scaled [of power_on 1023]
    readVoltage_stores_scaled [of power_on_v2 1023]
  by (simp add: power_on_def power_on_v2_def numReadings_def NUM_READINGS_def ADC_MAX_def)

subsection \<open>One slot per call\<close>

text \<open>
  Claim C9: a call of \<^verbatim>\<open>readVoltage\<close> overwrites the slot at the write index it finds
  and no other, keeps the buffer's length, and advances the index by one modulo the
  capacity, so the index stays in \<open>[0, N)\<close>: after one call from any state with a
  well-formed buffer, and after every pass of every run of either sketch.
\<close>

theorem readVoltage_one_slot:
  assumes "buffer_ok numReadings s" and "buffer_ok NUM_READINGS u"
  shows "readings (readVoltage r s) ! nat (readIndex s) = toVolts r
       \<and> (\<forall>j. j \<noteq> nat (readIndex s) \<longrightarrow> readings (readVoltage r s) ! j = readings s ! j)
       \<and> length (readings (readVoltage r s)) = numReadings
       \<and> readIndex (readVoltage r s) = (readIndex s + 1) mod int numReadings
       \<and> buffer_ok numReadings (readVoltage r s)
       \<and> readings (readVoltage_v2 r u) ! nat (readIndex u) = toVolts r
       \<and> (\<forall>j. j \<noteq> nat (readIndex u) \<longrightarrow> readings (readVoltage_v2 r u) ! j = readings u ! j)
       \<and> length (readings (readVoltage_v2 r u)) = NUM_READINGS
       \<and> readIndex (readVoltage_v2 r u) = (readIndex u + 1) mod int NUM_READINGS
       \<and> buffer_ok NUM_READINGS (readVoltage_v2 r u)
       \<and> buffer_ok numReadings (run ins) \<and> buffer_ok NUM_READINGS (run_v2 ins)"
proof -
  have i: "nat (readIndex s) < length (readings s)"
    and j: "nat (readIndex u) < length (readings u)"
    using assms by (auto simp add: buffer_ok_def)
  have m: "(readIndex s + 1) smod int numReadings = (readIndex s + 1) mod int numReadings"
    "(readIndex u + 1) smod int NUM_READINGS = (readIndex u + 1) mod int NUM_READINGS"
    using assms by (simp_all add: buffer_ok_def smod_step numReadings_def NUM_READINGS_def)
  show ?thesis
    using assms i j m readVoltage_buffer_ok [of s r] readVoltage_v2_buffer_ok [of u r]
      readIndex_in_range [of ins] readIndex_in_range_v2 [of ins]
    by (simp add: buffer_ok_def readVoltage_readings readVoltage_v2_readings
        readVoltage_readIndex readVoltage_v2_readIndex)
qed

text \<open>Witness for C9: the first call after power-on, in either sketch.\<close>

theorem readVoltage_one_slot_witness:
  "buffer_ok numReadings power_on \<and> buffer_ok NUM_READINGS power_on_v2
   \<and> readings (readVoltage 512 power_on) = [5 / 2, 0, 0, 0, 0, 0, 0, 0, 0, 0]
   \<and> readIndex (readVoltage 512 power_on) = 1
   \<and> readings (readVoltage_v2 512 power_on_v2) = [5 / 2, 0, 0, 0, 0]
   \<and> readIndex (readVoltage_v2 512 power_on_v2) = 1"
proof -
  have a: "buffer_ok numReadings power_on" and b: "buffer_ok NUM_READINGS power_on_v2"
    by (simp_all add: buffer_ok_def power_on_def power_on_v2_def numReadings_def
        NUM_READINGS_def)
  have c: "readings (readVoltage 512 power_on) = [5 / 2, 0, 0, 0, 0, 0, 0, 0, 0, 0]"
    by (simp add: readVoltage_readings power_on_def numReadings_def toVolts_def
        eval_nat_numeral)
  have d: "readings (readVoltage_v2 512 power_on_v2) = [5 / 2, 0, 0, 0, 0]"
    by (simp add: readVoltage_v2_readings power_on_v2_def NUM_READINGS_def toVolts_def
        eval_nat_numeral)
  from readVoltage_one_slot [OF a b, of 512 "[]"] a b c d show ?thesis
    by (simp add: power_on_def power_on_v2_def numReadings_def NUM_READINGS_def)
qed

section \<open>The bands\<close>

lemma at_tick_fields [simp]:
  "filteredVoltage (at_tick v t s) = v" "clock (at_tick v t s) = t"
  "startTime1 (at_tick v t s) = startTime1 s" "startTime2 (at_tick v t s) = startTime2 s"
  "startTime3 (at_tick v t s) = startTime3 s"
  "condition1Active (at_tick v t s) = condition1Active s"
  "condition2Active (at_tick v t s) = condition2Active s"
  "condition3Active (at_tick v t s) = condition3Active s"
  "pins (at_tick v t s) = pins s" "trace (at_tick v t s) = trace s"
  by (simp_all add: at_tick_def)

lemma ticks_Nil [simp]: "ticks f [] s = s"
  by (simp add: ticks_def)

lemma ticks_Cons [simp]: "ticks f ((v, t) # obs) s = ticks f obs (f (at_tick v t s))"
  by (simp add: ticks_def)

lemma ticks_append [simp]: "ticks f (xs @ ys) s = ticks f ys (ticks f xs s)"
  by (simp add: ticks_def)

text \<open>
  Each band function is described by four facts, one per situation it can find (latched,
  idle, pending, out of band), and by what a run of in-band ticks does to a latched
  state, to a pending one, and to any state whose flag is clear.
\<close>

subsection \<open>MUTE and RESET, first sketch\<close>

lemma checkCondition1_latched:
  "in_band1 (filteredVoltage s) \<Longrightarrow> condition1Active s \<Longrightarrow> checkCondition1 s = s"
  by (simp add: checkCondition1_def in_band1_def)

lemma checkCondition1_idle:
  "in_band1 (filteredVoltage s) \<Longrightarrow> \<not> condition1Active s \<Longrightarrow> startTime1 s = 0 \<Longrightarrow>
   checkCondition1 s = s\<lparr>startTime1 := clock s\<rparr>"
  by (simp add: checkCondition1_def in_band1_def millis_def)

text \<open>The long threshold is tested only when the short one has failed, and then fails.\<close>

lemma threshold_order:
  "\<not> DURATION_THRESHOLD_1 \<le> (d::32 word) \<Longrightarrow> \<not> DURATION_THRESHOLD_2 \<le> d"
  by (simp add: DURATION_THRESHOLD_1_def DURATION_THRESHOLD_2_def word_le_nat_alt)

lemma checkCondition1_pending:
  "in_band1 (filteredVoltage s) \<Longrightarrow> \<not> condition1Active s \<Longrightarrow> startTime1 s \<noteq> 0 \<Longrightarrow>
   checkCondition1 s =
     (if clock s - startTime1 s \<ge> DURATION_THRESHOLD_1
      then digitalWrite MUTE_PIN HIGH (s\<lparr>condition1Active := True\<rparr>) else s)"
  by (simp add: checkCondition1_def in_band1_def millis_def threshold_order)

lemma checkCondition1_out:
  "\<not> in_band1 (filteredVoltage s) \<Longrightarrow>
   checkCondition1 s =
     (if condition1Active s then digitalWrite RESET_PIN LOW (digitalWrite MUTE_PIN LOW s)
      else s)\<lparr>condition1Active := False, startTime1 := 0\<rparr>"
  by (auto simp add: checkCondition1_def in_band1_def Let_def)

lemma ticks1_latched:
  "condition1Active s \<Longrightarrow> \<forall>(v, t)\<in>set obs. in_band1 v \<Longrightarrow>
   condition1Active (ticks checkCondition1 obs s)
   \<and> startTime1 (ticks checkCondition1 obs s) = startTime1 s
   \<and> trace (ticks checkCondition1 obs s) = trace s
   \<and> pins (ticks checkCondition1 obs s) = pins s"
proof (induction obs arbitrary: s)
  case Nil
  then show ?case by simp
next
  case (Cons o1 obs)
  obtain v t where o1: "o1 = (v, t)" by (cases o1)
  from Cons.prems o1 have "checkCondition1 (at_tick v t s) = at_tick v t s"
    by (simp add: checkCondition1_latched)
  with Cons.IH [of "at_tick v t s"] Cons.prems o1 show ?case by simp
qed

lemma ticks1_pending:
  assumes "\<not> condition1Active s" and "startTime1 s \<noteq> 0"
    and "\<forall>(v, t)\<in>set obs. in_band1 v"
  shows "condition1Active (ticks checkCondition1 obs s)
           = (\<exists>(v, t)\<in>set obs. t - startTime1 s \<ge> DURATION_THRESHOLD_1)
   \<and> startTime1 (ticks checkCondition1 obs s) = startTime1 s
   \<and> trace (ticks checkCondition1 obs s)
        = trace s @ (if \<exists>(v, t)\<in>set obs. t - startTime1 s \<ge> DURATION_THRESHOLD_1
                     then [DigitalWrite MUTE_PIN HIGH] else [])
   \<and> pins (ticks checkCondition1 obs s)
        = (if \<exists>(v, t)\<in>set obs. t - startTime1 s \<ge> DURATION_THRESHOLD_1
           then (pins s)(MUTE_PIN := HIGH) else pins s)"
  using assms
proof (induction obs arbitrary: s)
  case Nil
  then show ?case by simp
next
  case (Cons o1 obs)
  obtain v t where o1: "o1 = (v, t)" by (cases o1)
  let ?s = "at_tick v t s"
  let ?l = "digitalWrite MUTE_PIN HIGH (?s\<lparr>condition1Active := True\<rparr>)"
  have step: "checkCondition1 ?s =
      (if t - startTime1 s \<ge> DURATION_THRESHOLD_1 then ?l else ?s)"
    using Cons.prems o1 by (simp add: checkCondition1_pending)
  show ?case
  proof (cases "t - startTime1 s \<ge> DURATION_THRESHOLD_1")
    case True
    have "condition1Active ?l" by (simp add: board_defs)
    from ticks1_latched [OF this, of obs] Cons.prems o1 True step show ?thesis
      by (simp add: board_defs)
  next
    case False
    with Cons.IH [of ?s] Cons.prems o1 step show ?thesis by simp
  qed
qed

lemma ticks1_unlatched:
  assumes "\<not> condition1Active s" and "\<forall>(v, t)\<in>set obs. in_band1 v"
  shows "trace (ticks checkCondition1 obs s)
           = trace s @ (if condition1Active (ticks checkCondition1 obs s)
                        then [DigitalWrite MUTE_PIN HIGH] else [])
   \<and> (\<forall>p. p \<noteq> MUTE_PIN \<longrightarrow> pins (ticks checkCondition1 obs s) p = pins s p)"
  using assms
proof (induction obs arbitrary: s)
  case Nil
  then show ?case by simp
next
  case (Cons o1 obs)
  obtain v t where o1: "o1 = (v, t)" by (cases o1)
  let ?s = "at_tick v t s"
  show ?case
  proof (cases "startTime1 s = 0")
    case True
    with Cons.prems o1 have "checkCondition1 ?s = ?s\<lparr>startTime1 := t\<rparr>"
      by (simp add: checkCondition1_idle)
    with Cons.IH [of "?s\<lparr>startTime1 := t\<rparr>"] Cons.prems o1 show ?thesis by simp
  next
    case False
    from ticks1_pending [of s "o1 # obs"] Cons.prems False show ?thesis
      by simp
  qed
qed

subsection \<open>PREV, first sketch\<close>

lemma checkCondition2_latched:
  "in_band2 (filteredVoltage s) \<Longrightarrow> condition2Active s \<Longrightarrow> checkCondition2 s = s"
  by (simp add: checkCondition2_def in_band2_def)

lemma checkCondition2_idle:
  "in_band2 (filteredVoltage s) \<Longrightarrow> \<not> condition2Active s \<Longrightarrow> startTime2 s = 0 \<Longrightarrow>
   checkCondition2 s = s\<lparr>startTime2 := clock s\<rparr>"
  by (simp add: checkCondition2_def in_band2_def millis_def)

lemma checkCondition2_pending:
  "in_band2 (filteredVoltage s) \<Longrightarrow> \<not> condition2Active s \<Longrightarrow> startTime2 s \<noteq> 0 \<Longrightarrow>
   checkCondition2 s =
     (if clock s - startTime2 s \<ge> DURATION_THRESHOLD_1
      then digitalWrite PREV_PIN HIGH (s\<lparr>condition2Active := True\<rparr>) else s)"
  by (simp add: checkCondition2_def in_band2_def millis_def)

lemma checkCondition2_out:
  "\<not> in_band2 (filteredVoltage s) \<Longrightarrow>
   checkCondition2 s =
     (if condition2Active s then digitalWrite PREV_PIN LOW s else s)
       \<lparr>condition2Active := False, startTime2 := 0\<rparr>"
  by (auto simp add: checkCondition2_def in_band2_def Let_def)

lemma ticks2_latched:
  "condition2Active s \<Longrightarrow> \<forall>(v, t)\<in>set obs. in_band2 v \<Longrightarrow>
   condition2Active (ticks checkCondition2 obs s)
   \<and> startTime2 (ticks checkCondition2 obs s) = startTime2 s
   \<and> trace (ticks checkCondition2 obs s) = trace s
   \<and> pins (ticks checkCondition2 obs s) = pins s"
proof (induction obs arbitrary: s)
  case Nil
  then show ?case by simp
next
  case (Cons o1 obs)
  obtain v t where o1: "o1 = (v, t)" by (cases o1)
  from Cons.prems o1 have "checkCondition2 (at_tick v t s) = at_tick v t s"
    by (simp add: checkCondition2_latched)
  with Cons.IH [of "at_tick v t s"] Cons.prems o1 show ?case by simp
qed

lemma ticks2_pending:
  assumes "\<not> condition2Active s" and "startTime2 s \<noteq> 0"
    and "\<forall>(v, t)\<in>set obs. in_band2 v"
  shows "condition2Active (ticks checkCondition2 obs s)
           = (\<exists>(v, t)\<in>set obs. t - startTime2 s \<ge> DURATION_THRESHOLD_1)
   \<and> startTime2 (ticks checkCondition2 obs s) = startTime2 s
   \<and> trace (ticks checkCondition2 obs s)
        = trace s @ (if \<exists>(v, t)\<in>set obs. t - startTime2 s \<ge> DURATION_THRESHOLD_1
                     then [DigitalWrite PREV_PIN HIGH] else [])
   \<and> pins (ticks checkCondition2 obs s)
        = (if \<exists>(v, t)\<in>set obs. t - startTime2 s \<ge> DURATION_THRESHOLD_1
           then (pins s)(PREV_PIN := HIGH) else pins s)"
  using assms
proof (induction obs arbitrary: s)
  case Nil
  then show ?case by simp
next
  case (Cons o1 obs)
  obtain v t where o1: "o1 = (v, t)" by (cases o1)
  let ?s = "at_tick v t s"
  let ?l = "digitalWrite PREV_PIN HIGH (?s\<lparr>condition2Active := True\<rparr>)"
  have step: "checkCondition2 ?s =
      (if t - startTime2 s \<ge> DURATION_THRESHOLD_1 then ?l else ?s)"
    using Cons.prems o1 by (simp add: checkCondition2_pending)
  show ?case
  proof (cases "t - startTime2 s \<ge> DURATION_THRESHOLD_1")
    case True
    have "condition2Active ?l" by (simp add: board_defs)
    from ticks2_latched [OF this, of obs] Cons.prems o1 True step show ?thesis
      by (simp add: board_defs)
  next
    case False
    with Cons.IH [of ?s] Cons.prems o1 step show ?thesis by simp
  qed
qed

lemma ticks2_unlatched:
  assumes "\<not> condition2Active s" and "\<forall>(v, t)\<in>set obs. in_band2 v"
  shows "trace (ticks checkCondition2 obs s)
           = trace s @ (if condition2Active (ticks checkCondition2 obs s) then [DigitalWrite PREV_PIN HIGH] else [])
   \<and> (\<forall>p. p \<noteq> PREV_PIN \<longrightarrow> pins (ticks checkCondition2 obs s) p = pins s p)"
  using assms
proof (induction obs arbitrary: s)
  case Nil
  then show ?case by simp
next
  case (Cons o1 obs)
  obtain v t where o1: "o1 = (v, t)" by (cases o1)
  let ?s = "at_tick v t s"
  show ?case
  proof (cases "startTime2 s = 0")
    case True
    with Cons.prems o1 have "checkCondition2 ?s = ?s\<lparr>startTime2 := t\<rparr>"
      by (simp add: checkCondition2_idle)
    with Cons.IH [of "?s\<lparr>startTime2 := t\<rparr>"] Cons.prems o1 show ?thesis by simp
  next
    case False
    from ticks2_pending [of s "o1 # obs"] Cons.prems False show ?thesis
      by simp
  qed
qed

subsection \<open>NEXT, first sketch\<close>

lemma checkCondition3_latched:
  "in_band3 (filteredVoltage s) \<Longrightarrow> condition3Active s \<Longrightarrow> checkCondition3 s = s"
  by (simp add: checkCondition3_def in_band3_def)

lemma checkCondition3_idle:
  "in_band3 (filteredVoltage s) \<Longrightarrow> \<not> condition3Active s \<Longrightarrow> startTime3 s = 0 \<Longrightarrow>
   checkCondition3 s = s\<lparr>startTime3 := clock s\<rparr>"
  by (simp add: checkCondition3_def in_band3_def millis_def)

lemma checkCondition3_pending:
  "in_band3 (filteredVoltage s) \<Longrightarrow> \<not> condition3Active s \<Longrightarrow> startTime3 s \<noteq> 0 \<Longrightarrow>
   checkCondition3 s =
     (if clock s - startTime3 s \<ge> DURATION_THRESHOLD_1
      then digitalWrite NEXT_PIN HIGH (s\<lparr>condition3Active := True\<rparr>) else s)"
  by (simp add: checkCondition3_def in_band3_def millis_def)

lemma checkCondition3_out:
  "\<not> in_band3 (filteredVoltage s) \<Longrightarrow>
   checkCondition3 s =
     (if condition3Active s then digitalWrite NEXT_PIN LOW s else s)
       \<lparr>condition3Active := False, startTime3 := 0\<rparr>"
  by (auto simp add: checkCondition3_def in_band3_def Let_def)

lemma ticks3_latched:
  "condition3Active s \<Longrightarrow> \<forall>(v, t)\<in>set obs. in_band3 v \<Longrightarrow>
   condition3Active (ticks checkCondition3 obs s)
   \<and> startTime3 (ticks checkCondition3 obs s) = startTime3 s
   \<and> trace (ticks checkCondition3 obs s) = trace s
   \<and> pins (ticks checkCondition3 obs s) = pins s"
proof (induction obs arbitrary: s)
  case Nil
  then show ?case by simp
next
  case (Cons o1 obs)
  obtain v t where o1: "o1 = (v, t)" by (cases o1)
  from Cons.prems o1 have "checkCondition3 (at_tick v t s) = at_tick v t s"
    by (simp add: checkCondition3_latched)
  with Cons.IH [of "at_tick v t s"] Cons.prems o1 show ?case by simp
qed

lemma ticks3_pending:
  assumes "\<not> condition3Active s" and "startTime3 s \<noteq> 0"
    and "\<forall>(v, t)\<in>set obs. in_band3 v"
  shows "condition3Active (ticks checkCondition3 obs s)
           = (\<exists>(v, t)\<in>set obs. t - startTime3 s \<ge> DURATION_THRESHOLD_1)
   \<and> startTime3 (ticks checkCondition3 obs s) = startTime3 s
   \<and> trace (ticks checkCondition3 obs s)
        = trace s @ (if \<exists>(v, t)\<in>set obs. t - startTime3 s \<ge> DURATION_THRESHOLD_1
                     then [DigitalWrite NEXT_PIN HIGH] else [])
   \<and> pins (ticks checkCondition3 obs s)
        = (if \<exists>(v, t)\<in>set obs. t - startTime3 s \<ge> DURATION_THRESHOLD_1
           then (pins s)(NEXT_PIN := HIGH) else pins s)"
  using assms
proof (induction obs arbitrary: s)
  case Nil
  then show ?case by simp
next
  case (Cons o1 obs)
  obtain v t where o1: "o1 = (v, t)" by (cases o1)
  let ?s = "at_tick v t s"
  let ?l = "digitalWrite NEXT_PIN HIGH (?s\<lparr>condition3Active := True\<rparr>)"
  have step: "checkCondition3 ?s =
      (if t - startTime3 s \<ge> DURATION_THRESHOLD_1 then ?l else ?s)"
    using Cons.prems o1 by (simp add: checkCondition3_pending)
  show ?case
  proof (cases "t - startTime3 s \<ge> DURATION_THRESHOLD_1")
    case True
    have "condition3Active ?l" by (simp add: board_defs)
    from ticks3_latched [OF this, of obs] Cons.prems o1 True step show ?thesis
      by (simp add: board_defs)
  next
    case False
    with Cons.IH [of ?s] Cons.prems o1 step show ?thesis by simp
  qed
qed

lemma ticks3_unlatched:
  assumes "\<not> condition3Active s" and "\<forall>(v, t)\<in>set obs. in_band3 v"
  shows "trace (ticks checkCondition3 obs s)
           = trace s @ (if condition3Active (ticks checkCondition3 obs s) then [DigitalWrite NEXT_PIN HIGH] else [])
   \<and> (\<forall>p. p \<noteq> NEXT_PIN \<longrightarrow> pins (ticks checkCondition3 obs s) p = pins s p)"
  using assms
proof (induction obs arbitrary: s)
  case Nil
  then show ?case by simp
next
  case (Cons o1 obs)
  obtain v t where o1: "o1 = (v, t)" by (cases o1)
  let ?s = "at_tick v t s"
  show ?case
  proof (cases "startTime3 s = 0")
    case True
    with Cons.prems o1 have "checkCondition3 ?s = ?s\<lparr>startTime3 := t\<rparr>"
      by (simp add: checkCondition3_idle)
    with Cons.IH [of "?s\<lparr>startTime3 := t\<rparr>"] Cons.prems o1 show ?thesis by simp
  next
    case False
    from ticks3_pending [of s "o1 # obs"] Cons.prems False show ?thesis
      by simp
  qed
qed

subsection \<open>POWER\_EN, second sketch\<close>

lemma checkCondition1_v2_latched:
  "in_band1_v2 (filteredVoltage s) \<Longrightarrow> condition1Active s \<Longrightarrow> checkCondition1_v2 s = s"
  by (simp add: checkCondition1_v2_def in_band1_v2_def)

lemma checkCondition1_v2_idle:
  "in_band1_v2 (filteredVoltage s) \<Longrightarrow> \<not> condition1Active s \<Longrightarrow> startTime1 s = 0 \<Longrightarrow>
   checkCondition1_v2 s = s\<lparr>startTime1 := clock s\<rparr>"
  by (simp add: checkCondition1_v2_def in_band1_v2_def millis_def)

lemma checkCondition1_v2_pending:
  "in_band1_v2 (filteredVoltage s) \<Longrightarrow> \<not> condition1Active s \<Longrightarrow> startTime1 s \<noteq> 0 \<Longrightarrow>
   checkCondition1_v2 s =
     (if clock s - startTime1 s \<ge> DURATION_THRESHOLD_1_v2
      then delay DURATION_THRESHOLD_2_v2 (digitalWrite POWER_EN_PIN LOW (s\<lparr>condition1Active := True\<rparr>)) else s)"
  by (simp add: checkCondition1_v2_def in_band1_v2_def millis_def)

lemma checkCondition1_v2_out:
  "\<not> in_band1_v2 (filteredVoltage s) \<Longrightarrow>
   checkCondition1_v2 s =
     (if condition1Active s then digitalWrite POWER_EN_PIN HIGH s else s)
       \<lparr>condition1Active := False, startTime1 := 0\<rparr>"
  by (auto simp add: checkCondition1_v2_def in_band1_v2_def Let_def)

lemma ticks1_v2_latched:
  "condition1Active s \<Longrightarrow> \<forall>(v, t)\<in>set obs. in_band1_v2 v \<Longrightarrow>
   condition1Active (ticks checkCondition1_v2 obs s)
   \<and> startTime1 (ticks checkCondition1_v2 obs s) = startTime1 s
   \<and> trace (ticks checkCondition1_v2 obs s) = trace s
   \<and> pins (ticks checkCondition1_v2 obs s) = pins s"
proof (induction obs arbitrary: s)
  case Nil
  then show ?case by simp
next
  case (Cons o1 obs)
  obtain v t where o1: "o1 = (v, t)" by (cases o1)
  from Cons.prems o1 have "checkCondition1_v2 (at_tick v t s) = at_tick v t s"
    by (simp add: checkCondition1_v2_latched)
  with Cons.IH [of "at_tick v t s"] Cons.prems o1 show ?case by simp
qed

lemma ticks1_v2_pending:
  assumes "\<not> condition1Active s" and "startTime1 s \<noteq> 0"
    and "\<forall>(v, t)\<in>set obs. in_band1_v2 v"
  shows "condition1Active (ticks checkCondition1_v2 obs s)
           = (\<exists>(v, t)\<in>set obs. t - startTime1 s \<ge> DURATION_THRESHOLD_1_v2)
   \<and> startTime1 (ticks checkCondition1_v2 obs s) = startTime1 s
   \<and> trace (ticks checkCondition1_v2 obs s)
        = trace s @ (if \<exists>(v, t)\<in>set obs. t - startTime1 s \<ge> DURATION_THRESHOLD_1_v2
                     then [DigitalWrite POWER_EN_PIN LOW, Delay DURATION_THRESHOLD_2_v2] else [])
   \<and> pins (ticks checkCondition1_v2 obs s)
        = (if \<exists>(v, t)\<in>set obs. t - startTime1 s \<ge> DURATION_THRESHOLD_1_v2
           then (pins s)(POWER_EN_PIN := LOW) else pins s)"
  using assms
proof (induction obs arbitrary: s)
  case Nil
  then show ?case by simp
next
  case (Cons o1 obs)
  obtain v t where o1: "o1 = (v, t)" by (cases o1)
  let ?s = "at_tick v t s"
  let ?l = "delay DURATION_THRESHOLD_2_v2 (digitalWrite POWER_EN_PIN LOW (?s\<lparr>condition1Active := True\<rparr>))"
  have step: "checkCondition1_v2 ?s =
      (if t - startTime1 s \<ge> DURATION_THRESHOLD_1_v2 then ?l else ?s)"
    using Cons.prems o1 by (simp add: checkCondition1_v2_pending)
  show ?case
  proof (cases "t - startTime1 s \<ge> DURATION_THRESHOLD_1_v2")
    case True
    have "condition1Active ?l" by (simp add: board_defs)
    from ticks1_v2_latched [OF this, of obs] Cons.prems o1 True step show ?thesis
      by (simp add: board_defs)
  next
    case False
    with Cons.IH [of ?s] Cons.prems o1 step show ?thesis by simp
  qed
qed

lemma ticks1_v2_unlatched:
  assumes "\<not> condition1Active s" and "\<forall>(v, t)\<in>set obs. in_band1_v2 v"
  shows "trace (ticks checkCondition1_v2 obs s)
           = trace s @ (if condition1Active (ticks checkCondition1_v2 obs s) then [DigitalWrite POWER_EN_PIN LOW, Delay DURATION_THRESHOLD_2_v2] else [])
   \<and> (\<forall>p. p \<noteq> POWER_EN_PIN \<longrightarrow> pins (ticks checkCondition1_v2 obs s) p = pins s p)"
  using assms
proof (induction obs arbitrary: s)
  case Nil
  then show ?case by simp
next
  case (Cons o1 obs)
  obtain v t where o1: "o1 = (v, t)" by (cases o1)
  let ?s = "at_tick v t s"
  show ?case
  proof (cases "startTime1 s = 0")
    case True
    with Cons.prems o1 have "checkCondition1_v2 ?s = ?s\<lparr>startTime1 := t\<rparr>"
      by (simp add: checkCondition1_v2_idle)
    with Cons.IH [of "?s\<lparr>startTime1 := t\<rparr>"] Cons.prems o1 show ?thesis by simp
  next
    case False
    from ticks1_v2_pending [of s "o1 # obs"] Cons.prems False show ?thesis
      by simp
  qed
qed

subsection \<open>PREV, second sketch\<close>

lemma checkCondition2_v2_latched:
  "in_band2_v2 (filteredVoltage s) \<Longrightarrow> condition2Active s \<Longrightarrow> checkCondition2_v2 s = s"
  by (simp add: checkCondition2_v2_def in_band2_v2_def)

lemma checkCondition2_v2_idle:
  "in_band2_v2 (filteredVoltage s) \<Longrightarrow> \<not> condition2Active s \<Longrightarrow> startTime2 s = 0 \<Longrightarrow>
   checkCondition2_v2 s = s\<lparr>startTime2 := clock s\<rparr>"
  by (simp add: checkCondition2_v2_def in_band2_v2_def millis_def)

lemma checkCondition2_v2_pending:
  "in_band2_v2 (filteredVoltage s) \<Longrightarrow> \<not> condition2Active s \<Longrightarrow> startTime2 s \<noteq> 0 \<Longrightarrow>
   checkCondition2_v2 s =
     (if clock s - startTime2 s \<ge> DURATION_THRESHOLD_2_v2
      then delay DURATION_THRESHOLD_2_v2 (digitalWrite PREV_PIN_v2 HIGH (s\<lparr>condition2Active := True\<rparr>)) else s)"
  by (simp add: checkCondition2_v2_def in_band2_v2_def millis_def)

lemma checkCondition2_v2_out:
  "\<not> in_band2_v2 (filteredVoltage s) \<Longrightarrow>
   checkCondition2_v2 s =
     (if condition2Active s then digitalWrite PREV_PIN_v2 LOW s else s)
       \<lparr>condition2Active := False, startTime2 := 0\<rparr>"
  by (auto simp add: checkCondition2_v2_def in_band2_v2_def Let_def)

lemma ticks2_v2_latched:
  "condition2Active s \<Longrightarrow> \<forall>(v, t)\<in>set obs. in_band2_v2 v \<Longrightarrow>
   condition2Active (ticks checkCondition2_v2 obs s)
   \<and> startTime2 (ticks checkCondition2_v2 obs s) = startTime2 s
   \<and> trace (ticks checkCondition2_v2 obs s) = trace s
   \<and> pins (ticks checkCondition2_v2 obs s) = pins s"
proof (induction obs arbitrary: s)
  case Nil
  then show ?case by simp
next
  case (Cons o1 obs)
  obtain v t where o1: "o1 = (v, t)" by (cases o1)
  from Cons.prems o1 have "checkCondition2_v2 (at_tick v t s) = at_tick v t s"
    by (simp add: checkCondition2_v2_latched)
  with Cons.IH [of "at_tick v t s"] Cons.prems o1 show ?case by simp
qed

lemma ticks2_v2_pending:
  assumes "\<not> condition2Active s" and "startTime2 s \<noteq> 0"
    and "\<forall>(v, t)\<in>set obs. in_band2_v2 v"
  shows "condition2Active (ticks checkCondition2_v2 obs s)
           = (\<exists>(v, t)\<in>set obs. t - startTime2 s \<ge> DURATION_THRESHOLD_2_v2)
   \<and> startTime2 (ticks checkCondition2_v2 obs s) = startTime2 s
   \<and> trace (ticks checkCondition2_v2 obs s)
        = trace s @ (if \<exists>(v, t)\<in>set obs. t - startTime2 s \<ge> DURATION_THRESHOLD_2_v2
                     then [DigitalWrite PREV_PIN_v2 HIGH, Delay DURATION_THRESHOLD_2_v2] else [])
   \<and> pins (ticks checkCondition2_v2 obs s)
        = (if \<exists>(v, t)\<in>set obs. t - startTime2 s \<ge> DURATION_THRESHOLD_2_v2
           then (pins s)(PREV_PIN_v2 := HIGH) else pins s)"
  using assms
proof (induction obs arbitrary: s)
  case Nil
  then show ?case by simp
next
  case (Cons o1 obs)
  obtain v t where o1: "o1 = (v, t)" by (cases o1)
  let ?s = "at_tick v t s"
  let ?l = "delay DURATION_THRESHOLD_2_v2 (digitalWrite PREV_PIN_v2 HIGH (?s\<lparr>condition2Active := True\<rparr>))"
  have step: "checkCondition2_v2 ?s =
      (if t - startTime2 s \<ge> DURATION_THRESHOLD_2_v2 then ?l else ?s)"
    using Cons.prems o1 by (simp add: checkCondition2_v2_pending)
  show ?case
  proof (cases "t - startTime2 s \<ge> DURATION_THRESHOLD_2_v2")
    case True
    have "condition2Active ?l" by (simp add: board_defs)
    from ticks2_v2_latched [OF this, of obs] Cons.prems o1 True step show ?thesis
      by (simp add: board_defs)
  next
    case False
    with Cons.IH [of ?s] Cons.prems o1 step show ?thesis by simp
  qed
qed

lemma ticks2_v2_unlatched:
  assumes "\<not> condition2Active s" and "\<forall>(v, t)\<in>set obs. in_band2_v2 v"
  shows "trace (ticks checkCondition2_v2 obs s)
           = trace s @ (if condition2Active (ticks checkCondition2_v2 obs s) then [DigitalWrite PREV_PIN_v2 HIGH, Delay DURATION_THRESHOLD_2_v2] else [])
   \<and> (\<forall>p. p \<noteq> PREV_PIN_v2 \<longrightarrow> pins (ticks checkCondition2_v2 obs s) p = pins s p)"
  using assms
proof (induction obs arbitrary: s)
  case Nil
  then show ?case by simp
next
  case (Cons o1 obs)
  obtain v t where o1: "o1 = (v, t)" by (cases o1)
  let ?s = "at_tick v t s"
  show ?case
  proof (cases "startTime2 s = 0")
    case True
    with Cons.prems o1 have "checkCondition2_v2 ?s = ?s\<lparr>startTime2 := t\<rparr>"
      by (simp add: checkCondition2_v2_idle)
    with Cons.IH [of "?s\<lparr>startTime2 := t\<rparr>"] Cons.prems o1 show ?thesis by simp
  next
    case False
    from ticks2_v2_pending [of s "o1 # obs"] Cons.prems False show ?thesis
      by simp
  qed
qed

subsection \<open>NEXT, second sketch\<close>

lemma checkCondition3_v2_latched:
  "in_band3_v2 (filteredVoltage s) \<Longrightarrow> condition3Active s \<Longrightarrow> checkCondition3_v2 s = s"
  by (simp add: checkCondition3_v2_def in_band3_v2_def)

lemma checkCondition3_v2_idle:
  "in_band3_v2 (filteredVoltage s) \<Longrightarrow> \<not> condition3Active s \<Longrightarrow> startTime3 s = 0 \<Longrightarrow>
   checkCondition3_v2 s = s\<lparr>startTime3 := clock s\<rparr>"
  by (simp add: checkCondition3_v2_def in_band3_v2_def millis_def)

lemma checkCondition3_v2_pending:
  "in_band3_v2 (filteredVoltage s) \<Longrightarrow> \<not> condition3Active s \<Longrightarrow> startTime3 s \<noteq> 0 \<Longrightarrow>
   checkCondition3_v2 s =
     (if clock s - startTime3 s \<ge> DURATION_THRESHOLD_2_v2
      then delay DURATION_THRESHOLD_2_v2 (digitalWrite NEXT_PIN_v2 HIGH (s\<lparr>condition3Active := True\<rparr>)) else s)"
  by (simp add: checkCondition3_v2_def in_band3_v2_def millis_def)

lemma checkCondition3_v2_out:
  "\<not> in_band3_v2 (filteredVoltage s) \<Longrightarrow>
   checkCondition3_v2 s =
     (if condition3Active s then digitalWrite NEXT_PIN_v2 LOW s else s)
       \<lparr>condition3Active := False, startTime3 := 0\<rparr>"
  by (auto simp add: checkCondition3_v2_def in_band3_v2_def Let_def)

lemma ticks3_v2_latched:
  "condition3Active s \<Longrightarrow> \<forall>(v, t)\<in>set obs. in_band3_v2 v \<Longrightarrow>
   condition3Active (ticks checkCondition3_v2 obs s)
   \<and> startTime3 (ticks checkCondition3_v2 obs s) = startTime3 s
   \<and> trace (ticks checkCondition3_v2 obs s) = trace s
   \<and> pins (ticks checkCondition3_v2 obs s) = pins s"
proof (induction obs arbitrary: s)
  case Nil
  then show ?case by simp
next
  case (Cons o1 obs)
  obtain v t where o1: "o1 = (v, t)" by (cases o1)
  from Cons.prems o1 have "checkCondition3_v2 (at_tick v t s) = at_tick v t s"
    by (simp add: checkCondition3_v2_latched)
  with Cons.IH [of "at_tick v t s"] Cons.prems o1 show ?case by simp
qed

lemma ticks3_v2_pending:
  assumes "\<not> condition3Active s" and "startTime3 s \<noteq> 0"
    and "\<forall>(v, t)\<in>set obs. in_band3_v2 v"
  shows "condition3Active (ticks checkCondition3_v2 obs s)
           = (\<exists>(v, t)\<in>set obs. t - startTime3 s \<ge> DURATION_THRESHOLD_2_v2)
   \<and> startTime3 (ticks checkCondition3_v2 obs s) = startTime3 s
   \<and> trace (ticks checkCondition3_v2 obs s)
        = trace s @ (if \<exists>(v, t)\<in>set obs. t - startTime3 s \<ge> DURATION_THRESHOLD_2_v2
                     then [DigitalWrite NEXT_PIN_v2 HIGH, Delay DURATION_THRESHOLD_2_v2] else [])
   \<and> pins (ticks checkCondition3_v2 obs s)
        = (if \<exists>(v, t)\<in>set obs. t - startTime3 s \<ge> DURATION_THRESHOLD_2_v2
           then (pins s)(NEXT_PIN_v2 := HIGH) else pins s)"
  using assms
proof (induction obs arbitrary: s)
  case Nil
  then show ?case by simp
next
  case (Cons o1 obs)
  obtain v t where o1: "o1 = (v, t)" by (cases o1)
  let ?s = "at_tick v t s"
  let ?l = "delay DURATION_THRESHOLD_2_v2 (digitalWrite NEXT_PIN_v2 HIGH (?s\<lparr>condition3Active := True\<rparr>))"
  have step: "checkCondition3_v2 ?s =
      (if t - startTime3 s \<ge> DURATION_THRESHOLD_2_v2 then ?l else ?s)"
    using Cons.prems o1 by (simp add: checkCondition3_v2_pending)
  show ?case
  proof (cases "t - startTime3 s \<ge> DURATION_THRESHOLD_2_v2")
    case True
    have "condition3Active ?l" by (simp add: board_defs)
    from ticks3_v2_latched [OF this, of obs] Cons.prems o1 True step show ?thesis
      by (simp add: board_defs)
  next
    case False
    with Cons.IH [of ?s] Cons.prems o1 step show ?thesis by simp
  qed
qed

lemma ticks3_v2_unlatched:
  assumes "\<not> condition3Active s" and "\<forall>(v, t)\<in>set obs. in_band3_v2 v"
  shows "trace (ticks checkCondition3_v2 obs s)
           = trace s @ (if condition3Active (ticks checkCondition3_v2 obs s) then [DigitalWrite NEXT_PIN_v2 HIGH, Delay DURATION_THRESHOLD_2_v2] else [])
   \<and> (\<forall>p. p \<noteq> NEXT_PIN_v2 \<longrightarrow> pins (ticks checkCondition3_v2 obs s) p = pins s p)"
  using assms
proof (induction obs arbitrary: s)
  case Nil
  then show ?case by simp
next
  case (Cons o1 obs)
  obtain v t where o1: "o1 = (v, t)" by (cases o1)
  let ?s = "at_tick v t s"
  show ?case
  proof (cases "startTime3 s = 0")
    case True
    with Cons.prems o1 have "checkCondition3_v2 ?s = ?s\<lparr>startTime3 := t\<rparr>"
      by (simp add: checkCondition3_v2_idle)
    with Cons.IH [of "?s\<lparr>startTime3 := t\<rparr>"] Cons.prems o1 show ?thesis by simp
  next
    case False
    from ticks3_v2_pending [of s "o1 # obs"] Cons.prems False show ?thesis
      by simp
  qed
qed

section \<open>Occupancies\<close>

subsection \<open>The two thresholds of the MUTE band\<close>

text \<open>
  Claim C1 says that during one continuous occupancy of the band 3.70--3.90 V of the
  first sketch MUTE\_PIN is latched at the first tick with at least 300 ms elapsed, and
  that RESET\_PIN is never driven HIGH. The band does not latch at that tick when the
  counter reads 0 at the entry tick: from the idle band, with in-band ticks at 0, 100,
  200 and 300, the flag is still false after the tick at 300, nothing has been
  written and MUTE\_PIN is LOW; the tick at 400 writes MUTE\_PIN HIGH. The time stored
  at the entry is the value that means that no entry was stored, so the tick at 100
  stores the entry again.
\<close>

theorem checkCondition1_entry_at_zero:
  "in_band1 (38 / 10)
   \<and> \<not> condition1Active (ticks checkCondition1
         [(38 / 10, 0), (38 / 10, 100), (38 / 10, 200), (38 / 10, 300)] power_on)
   \<and> trace (ticks checkCondition1
         [(38 / 10, 0), (38 / 10, 100), (38 / 10, 200), (38 / 10, 300)] power_on) = []
   \<and> pins (ticks checkCondition1
         [(38 / 10, 0), (38 / 10, 100), (38 / 10, 200), (38 / 10, 300)] power_on) MUTE_PIN = LOW
   \<and> trace (ticks checkCondition1
         [(38 / 10, 0), (38 / 10, 100), (38 / 10, 200), (38 / 10, 300), (38 / 10, 400)] power_on)
       = [DigitalWrite MUTE_PIN HIGH]"
  by (simp add: checkCondition1_def power_on_def in_band1_def VOLTAGE_LOW_1_def
      VOLTAGE_HIGH_1_def DURATION_THRESHOLD_1_def DURATION_THRESHOLD_2_def board_defs Let_def)

text \<open>
  For every other entry time the band does what the claim says. From the idle band, with
  the entry tick at \<open>t0 \<noteq> 0\<close>, a run of in-band ticks ends latched exactly when one
  of the ticks after the entry found \<open>t - t0 \<ge> 300\<close>, the only write is then the one of
  MUTE\_PIN, and RESET\_PIN is left as it was. As this holds for every run it holds for
  each of its prefixes, so the write is made at the first such tick.
\<close>

lemma checkCondition1_hold:
  assumes "\<not> condition1Active s" and "startTime1 s = 0" and "t0 \<noteq> 0"
    and "\<forall>(v, t)\<in>set ((v0, t0) # obs). in_band1 v"
  shows "condition1Active (ticks checkCondition1 ((v0, t0) # obs) s)
           = (\<exists>(v, t)\<in>set obs. t - t0 \<ge> 300)
   \<and> trace (ticks checkCondition1 ((v0, t0) # obs) s)
       = trace s @ (if \<exists>(v, t)\<in>set obs. t - t0 \<ge> 300
                    then [DigitalWrite MUTE_PIN HIGH] else [])
   \<and> pins (ticks checkCondition1 ((v0, t0) # obs) s) RESET_PIN = pins s RESET_PIN"
proof -
  let ?e = "(at_tick v0 t0 s)\<lparr>startTime1 := t0\<rparr>"
  have "checkCondition1 (at_tick v0 t0 s) = ?e"
    using assms by (simp add: checkCondition1_idle)
  moreover have "condition1Active (ticks checkCondition1 obs ?e)
           = (\<exists>(v, t)\<in>set obs. t - startTime1 ?e \<ge> DURATION_THRESHOLD_1)
     \<and> trace (ticks checkCondition1 obs ?e)
        = trace ?e @ (if \<exists>(v, t)\<in>set obs. t - startTime1 ?e \<ge> DURATION_THRESHOLD_1
                     then [DigitalWrite MUTE_PIN HIGH] else [])
     \<and> pins (ticks checkCondition1 obs ?e)
        = (if \<exists>(v, t)\<in>set obs. t - startTime1 ?e \<ge> DURATION_THRESHOLD_1
           then (pins ?e)(MUTE_PIN := HIGH) else pins ?e)"
    using ticks1_pending [of ?e obs] assms by simp
  ultimately show ?thesis
    by (simp add: DURATION_THRESHOLD_1_def MUTE_PIN_def RESET_PIN_def)
qed

text \<open>
  The second half of the claim holds without any condition on the entry: over in-band
  ticks met with the flag clear the trace grows by nothing or by the one write of
  MUTE\_PIN, and RESET\_PIN keeps its level, also when the first tick past 300 ms comes
  after 3000 ms. For a band whose entry is stored, the write is made at the first tick
  with \<^verbatim>\<open>millis() - startTime1\<close> at least 300.
\<close>

lemma checkCondition1_mute_only:
  assumes "\<not> condition1Active s" and "\<forall>(v, t)\<in>set obs. in_band1 v"
  shows "(trace (ticks checkCondition1 obs s) = trace s
          \<or> trace (ticks checkCondition1 obs s) = trace s @ [DigitalWrite MUTE_PIN HIGH])
   \<and> pins (ticks checkCondition1 obs s) RESET_PIN = pins s RESET_PIN
   \<and> (startTime1 s \<noteq> 0 \<and> obs = pre @ (v1, t1) # post
        \<and> (\<forall>(v, t)\<in>set pre. \<not> t - startTime1 s \<ge> 300) \<and> t1 - startTime1 s \<ge> 300 \<longrightarrow>
      \<not> condition1Active (ticks checkCondition1 pre s)
      \<and> trace (ticks checkCondition1 pre s) = trace s
      \<and> condition1Active (ticks checkCondition1 (pre @ [(v1, t1)]) s)
      \<and> trace (ticks checkCondition1 (pre @ [(v1, t1)]) s)
           = trace s @ [DigitalWrite MUTE_PIN HIGH]
      \<and> pins (ticks checkCondition1 (pre @ [(v1, t1)]) s) MUTE_PIN = HIGH
      \<and> trace (ticks checkCondition1 obs s) = trace s @ [DigitalWrite MUTE_PIN HIGH])
   \<and> (startTime1 s = 0 \<and> obs = (v0, t0) # post \<longrightarrow>
      \<not> condition1Active (ticks checkCondition1 [(v0, t0)] s)
      \<and> startTime1 (ticks checkCondition1 [(v0, t0)] s) = t0
      \<and> trace (ticks checkCondition1 [(v0, t0)] s) = trace s)"
proof -
  have a: "(trace (ticks checkCondition1 obs s) = trace s
          \<or> trace (ticks checkCondition1 obs s) = trace s @ [DigitalWrite MUTE_PIN HIGH])
      \<and> pins (ticks checkCondition1 obs s) RESET_PIN = pins s RESET_PIN"
    using ticks1_unlatched [OF assms] by (simp add: MUTE_PIN_def RESET_PIN_def)
  have b: "\<not> condition1Active (ticks checkCondition1 pre s)
      \<and> trace (ticks checkCondition1 pre s) = trace s
      \<and> condition1Active (ticks checkCondition1 (pre @ [(v1, t1)]) s)
      \<and> trace (ticks checkCondition1 (pre @ [(v1, t1)]) s)
           = trace s @ [DigitalWrite MUTE_PIN HIGH]
      \<and> pins (ticks checkCondition1 (pre @ [(v1, t1)]) s) MUTE_PIN = HIGH
      \<and> trace (ticks checkCondition1 obs s) = trace s @ [DigitalWrite MUTE_PIN HIGH]"
    if h: "startTime1 s \<noteq> 0" "obs = pre @ (v1, t1) # post"
      "\<forall>(v, t)\<in>set pre. \<not> t - startTime1 s \<ge> 300" "t1 - startTime1 s \<ge> 300"
  proof -
    have p1: "\<forall>(v, t)\<in>set pre. in_band1 v" and p2: "\<forall>(v, t)\<in>set (pre @ [(v1, t1)]). in_band1 v"
      using assms(2) h(2) by auto
    have n: "\<not> (\<exists>(v, t)\<in>set pre. t - startTime1 s \<ge> DURATION_THRESHOLD_1)"
      using h(3) by (auto simp add: DURATION_THRESHOLD_1_def)
    have y: "\<exists>(v, t)\<in>set (pre @ [(v1, t1)]). t - startTime1 s \<ge> DURATION_THRESHOLD_1"
      and z: "\<exists>(v, t)\<in>set obs. t - startTime1 s \<ge> DURATION_THRESHOLD_1"
      using h(2,4) by (auto simp add: DURATION_THRESHOLD_1_def)
    from ticks1_pending [OF assms(1) h(1) p1] n
      ticks1_pending [OF assms(1) h(1) p2] y
      ticks1_pending [OF assms(1) h(1) assms(2)] z
    show ?thesis by (simp del: ticks_append)
  qed
  have c: "\<not> condition1Active (ticks checkCondition1 [(v0, t0)] s)
      \<and> startTime1 (ticks checkCondition1 [(v0, t0)] s) = t0
      \<and> trace (ticks checkCondition1 [(v0, t0)] s) = trace s"
    if h: "startTime1 s = 0" "obs = (v0, t0) # post"
  proof -
    have "in_band1 v0" using assms(2) h(2) by simp
    then show ?thesis using assms(1) h(1) by (simp add: checkCondition1_idle)
  qed
  from a b c show ?thesis by blast
qed

subsection \<open>Edges of an output\<close>

text \<open>
  Claim C2, as stated: in every continuous occupancy of a band each of its outputs goes
  active exactly once and inactive exactly once. It fails for an occupancy that ends
  before the hold time: PREV\_PIN of the first sketch, in band at 1000 and 1020 and out
  of band at 1040, is written neither way.
\<close>

theorem short_occupancy_counterexample:
  "in_band2 (24 / 10) \<and> \<not> in_band2 2
   \<and> DigitalWrite PREV_PIN HIGH
        \<notin> set (trace (ticks checkCondition2 [(24 / 10, 1000), (24 / 10, 1020), (2, 1040)] power_on))
   \<and> DigitalWrite PREV_PIN LOW
        \<notin> set (trace (ticks checkCondition2 [(24 / 10, 1000), (24 / 10, 1020), (2, 1040)] power_on))"
  by (simp add: checkCondition2_def power_on_def in_band2_def VOLTAGE_LOW_2_def
      VOLTAGE_HIGH_2_def DURATION_THRESHOLD_1_def board_defs Let_def)

text \<open>
  The occupancy of a band follows from facts about its function: what the out-of-band
  call does, what the entry tick of an idle band stores, what in-band ticks write while
  the flag is clear, when a pending band latches, and that a tick leaves flag and start
  time as they are.
\<close>

lemma band_occupancyI:
  assumes dist: "distinct (on @ off)"
    and out: "\<And>s. \<not> inb (filteredVoltage s) \<Longrightarrow>
          \<not> act (f s) \<and> st (f s) = 0
          \<and> trace (f s) = trace s @ (if act s then off else [])"
    and idle: "\<And>s. inb (filteredVoltage s) \<Longrightarrow> \<not> act s \<Longrightarrow> st s = 0 \<Longrightarrow>
          \<not> act (f s) \<and> st (f s) = clock s"
    and unl: "\<And>s obs. \<not> act s \<Longrightarrow> \<forall>(v, t)\<in>set obs. inb v \<Longrightarrow>
          trace (ticks f obs s) = trace s @ (if act (ticks f obs s) then on else [])"
    and pend: "\<And>s obs. \<not> act s \<Longrightarrow> st s \<noteq> 0 \<Longrightarrow> \<forall>(v, t)\<in>set obs. inb v \<Longrightarrow>
          act (ticks f obs s) = (\<exists>(v, t)\<in>set obs. t - st s \<ge> T)"
    and frame: "\<And>v t s. act (at_tick v t s) = act s \<and> st (at_tick v t s) = st s"
  shows "band_occupancy f inb act st T on off"
  unfolding band_occupancy_def
proof (rule conjI)
  show "distinct (on @ off)" by (rule dist)
next
  show "\<forall>s obs w x. \<not> act s \<and> (\<forall>(v, t)\<in>set obs. inb v) \<and> \<not> inb w \<longrightarrow>
        trace (ticks f obs s) = trace s @ (if act (ticks f obs s) then on else [])
        \<and> trace (ticks f (obs @ [(w, x)]) s)
            = trace s @ (if act (ticks f obs s) then on @ off else [])
        \<and> \<not> act (ticks f (obs @ [(w, x)]) s) \<and> st (ticks f (obs @ [(w, x)]) s) = 0
        \<and> (st s \<noteq> 0 \<longrightarrow> act (ticks f obs s) = (\<exists>(v, t)\<in>set obs. t - st s \<ge> T))
        \<and> (st s = 0 \<longrightarrow>
             (\<forall>v0 t0 rest. obs = (v0, t0) # rest \<and> t0 \<noteq> 0 \<longrightarrow>
                act (ticks f obs s) = (\<exists>(v, t)\<in>set rest. t - t0 \<ge> T)))"
  proof (intro allI, rule impI)
    fix s :: state and obs :: "(real \<times> 32 word) list" and w :: real and x :: "32 word"
    assume h: "\<not> act s \<and> (\<forall>(v, t)\<in>set obs. inb v) \<and> \<not> inb w"
    let ?m = "ticks f obs s"
    have m: "trace ?m = trace s @ (if act ?m then on else [])"
      using unl [of s obs] h by simp
    have "\<not> inb (filteredVoltage (at_tick w x ?m))" using h by simp
    from out [OF this] have e: "\<not> act (f (at_tick w x ?m))" "st (f (at_tick w x ?m)) = 0"
      "trace (f (at_tick w x ?m)) = trace ?m @ (if act ?m then off else [])"
      by (simp_all add: frame)
    have c2: "trace (ticks f (obs @ [(w, x)]) s)
        = trace s @ (if act ?m then on @ off else [])"
      using m e by simp
    have c3: "\<not> act (ticks f (obs @ [(w, x)]) s)" and c4: "st (ticks f (obs @ [(w, x)]) s) = 0"
      using e by simp_all
    have c5: "st s \<noteq> 0 \<longrightarrow> act ?m = (\<exists>(v, t)\<in>set obs. t - st s \<ge> T)"
      using pend [of s obs] h by simp
    have c6: "st s = 0 \<longrightarrow>
        (\<forall>v0 t0 rest. obs = (v0, t0) # rest \<and> t0 \<noteq> 0 \<longrightarrow>
           act ?m = (\<exists>(v, t)\<in>set rest. t - t0 \<ge> T))"
    proof (intro impI allI)
      fix v0 t0 rest
      assume z: "st s = 0" and o: "obs = (v0, t0) # rest \<and> t0 \<noteq> 0"
      let ?e = "f (at_tick v0 t0 s)"
      have i: "inb v0" and r: "\<forall>(v, t)\<in>set rest. inb v" using h o by simp_all
      have "\<not> act ?e \<and> st ?e = t0"
        using idle [of "at_tick v0 t0 s"] i h z by (simp add: frame)
      with pend [of ?e rest] r o show "act ?m = (\<exists>(v, t)\<in>set rest. t - t0 \<ge> T)"
        by simp
    qed
    show "trace ?m = trace s @ (if act ?m then on else [])
        \<and> trace (ticks f (obs @ [(w, x)]) s)
            = trace s @ (if act ?m then on @ off else [])
        \<and> \<not> act (ticks f (obs @ [(w, x)]) s) \<and> st (ticks f (obs @ [(w, x)]) s) = 0
        \<and> (st s \<noteq> 0 \<longrightarrow> act ?m = (\<exists>(v, t)\<in>set obs. t - st s \<ge> T))
        \<and> (st s = 0 \<longrightarrow>
             (\<forall>v0 t0 rest. obs = (v0, t0) # rest \<and> t0 \<noteq> 0 \<longrightarrow>
                act ?m = (\<exists>(v, t)\<in>set rest. t - t0 \<ge> T)))"
      by (intro conjI) (fact m, fact c2, fact c3, fact c4, fact c5, fact c6)
  qed
qed

lemma band_occupancy_checkCondition1:
  "band_occupancy checkCondition1 in_band1 condition1Active startTime1 300
     [DigitalWrite MUTE_PIN HIGH] [DigitalWrite MUTE_PIN LOW, DigitalWrite RESET_PIN LOW]"
proof (rule band_occupancyI)
  show "distinct ([DigitalWrite MUTE_PIN HIGH] @ [DigitalWrite MUTE_PIN LOW, DigitalWrite RESET_PIN LOW])"
    by (simp add: MUTE_PIN_def RESET_PIN_def)
  fix s
  show "\<not> in_band1 (filteredVoltage s) \<Longrightarrow>
         \<not> condition1Active (checkCondition1 s) \<and> startTime1 (checkCondition1 s) = 0
         \<and> trace (checkCondition1 s)
             = trace s @ (if condition1Active s then [DigitalWrite MUTE_PIN LOW, DigitalWrite RESET_PIN LOW] else [])"
    by (simp add: checkCondition1_out digitalWrite_def)
  show "in_band1 (filteredVoltage s) \<Longrightarrow> \<not> condition1Active s \<Longrightarrow> startTime1 s = 0 \<Longrightarrow>
        \<not> condition1Active (checkCondition1 s) \<and> startTime1 (checkCondition1 s) = clock s"
    by (simp add: checkCondition1_idle)
  show "\<not> condition1Active s \<Longrightarrow> \<forall>(v, t)\<in>set obs. in_band1 v \<Longrightarrow>
        trace (ticks checkCondition1 obs s)
          = trace s @ (if condition1Active (ticks checkCondition1 obs s) then [DigitalWrite MUTE_PIN HIGH] else [])" for obs
    using ticks1_unlatched [of s obs] by (simp add: DURATION_THRESHOLD_1_def)
  show "\<not> condition1Active s \<Longrightarrow> startTime1 s \<noteq> 0 \<Longrightarrow> \<forall>(v, t)\<in>set obs. in_band1 v \<Longrightarrow>
        condition1Active (ticks checkCondition1 obs s) = (\<exists>(v, t)\<in>set obs. t - startTime1 s \<ge> 300)"
    for obs
    using ticks1_pending [of s obs] by (simp add: DURATION_THRESHOLD_1_def)
  show "condition1Active (at_tick v t s) = condition1Active s
        \<and> startTime1 (at_tick v t s) = startTime1 s" for v t
    by simp
qed

lemma band_occupancy_checkCondition2:
  "band_occupancy checkCondition2 in_band2 condition2Active startTime2 300
     [DigitalWrite PREV_PIN HIGH] [DigitalWrite PREV_PIN LOW]"
proof (rule band_occupancyI)
  show "distinct ([DigitalWrite PREV_PIN HIGH] @ [DigitalWrite PREV_PIN LOW])"
    by (simp)
  fix s
  show "\<not> in_band2 (filteredVoltage s) \<Longrightarrow>
         \<not> condition2Active (checkCondition2 s) \<and> startTime2 (checkCondition2 s) = 0
         \<and> trace (checkCondition2 s)
             = trace s @ (if condition2Active s then [DigitalWrite PREV_PIN LOW] else [])"
    by (simp add: checkCondition2_out digitalWrite_def)
  show "in_band2 (filteredVoltage s) \<Longrightarrow> \<not> condition2Active s \<Longrightarrow> startTime2 s = 0 \<Longrightarrow>
        \<not> condition2Active (checkCondition2 s) \<and> startTime2 (checkCondition2 s) = clock s"
    by (simp add: checkCondition2_idle)
  show "\<not> condition2Active s \<Longrightarrow> \<forall>(v, t)\<in>set obs. in_band2 v \<Longrightarrow>
        trace (ticks checkCondition2 obs s)
          = trace s @ (if condition2Active (ticks checkCondition2 obs s) then [DigitalWrite PREV_PIN HIGH] else [])" for obs
    using ticks2_unlatched [of s obs] by (simp add: DURATION_THRESHOLD_1_def)
  show "\<not> condition2Active s \<Longrightarrow> startTime2 s \<noteq> 0 \<Longrightarrow> \<forall>(v, t)\<in>set obs. in_band2 v \<Longrightarrow>
        condition2Active (ticks checkCondition2 obs s) = (\<exists>(v, t)\<in>set obs. t - startTime2 s \<ge> 300)"
    for obs
    using ticks2_pending [of s obs] by (simp add: DURATION_THRESHOLD_1_def)
  show "condition2Active (at_tick v t s) = condition2Active s
        \<and> startTime2 (at_tick v t s) = startTime2 s" for v t
    by simp
qed

lemma band_occupancy_checkCondition3:
  "band_occupancy checkCondition3 in_band3 condition3Active startTime3 300
     [DigitalWrite NEXT_PIN HIGH] [DigitalWrite NEXT_PIN LOW]"
proof (rule band_occupancyI)
  show "distinct ([DigitalWrite NEXT_PIN HIGH] @ [DigitalWrite NEXT_PIN LOW])"
    by (simp)
  fix s
  show "\<not> in_band3 (filteredVoltage s) \<Longrightarrow>
         \<not> condition3Active (checkCondition3 s) \<and> startTime3 (checkCondition3 s) = 0
         \<and> trace (checkCondition3 s)
             = trace s @ (if condition3Active s then [DigitalWrite NEXT_PIN LOW] else [])"
    by (simp add: checkCondition3_out digitalWrite_def)
  show "in_band3 (filteredVoltage s) \<Longrightarrow> \<not> condition3Active s \<Longrightarrow> startTime3 s = 0 \<Longrightarrow>
        \<not> condition3Active (checkCondition3 s) \<and> startTime3 (checkCondition3 s) = clock s"
    by (simp add: checkCondition3_idle)
  show "\<not> condition3Active s \<Longrightarrow> \<forall>(v, t)\<in>set obs. in_band3 v \<Longrightarrow>
        trace (ticks checkCondition3 obs s)
          = trace s @ (if condition3Active (ticks checkCondition3 obs s) then [DigitalWrite NEXT_PIN HIGH] else [])" for obs
    using ticks3_unlatched [of s obs] by (simp add: DURATION_THRESHOLD_1_def)
  show "\<not> condition3Active s \<Longrightarrow> startTime3 s \<noteq> 0 \<Longrightarrow> \<forall>(v, t)\<in>set obs. in_band3 v \<Longrightarrow>
        condition3Active (ticks checkCondition3 obs s) = (\<exists>(v, t)\<in>set obs. t - startTime3 s \<ge> 300)"
    for obs
    using ticks3_pending [of s obs] by (simp add: DURATION_THRESHOLD_1_def)
  show "condition3Active (at_tick v t s) = condition3Active s
        \<and> startTime3 (at_tick v t s) = startTime3 s" for v t
    by simp
qed

lemma band_occupancy_checkCondition1_v2:
  "band_occupancy checkCondition1_v2 in_band1_v2 condition1Active startTime1 3000
     [DigitalWrite POWER_EN_PIN LOW, Delay 300] [DigitalWrite POWER_EN_PIN HIGH]"
proof (rule band_occupancyI)
  show "distinct ([DigitalWrite POWER_EN_PIN LOW, Delay 300] @ [DigitalWrite POWER_EN_PIN HIGH])"
    by (simp)
  fix s
  show "\<not> in_band1_v2 (filteredVoltage s) \<Longrightarrow>
         \<not> condition1Active (checkCondition1_v2 s) \<and> startTime1 (checkCondition1_v2 s) = 0
         \<and> trace (checkCondition1_v2 s)
             = trace s @ (if condition1Active s then [DigitalWrite POWER_EN_PIN HIGH] else [])"
    by (simp add: checkCondition1_v2_out digitalWrite_def)
  show "in_band1_v2 (filteredVoltage s) \<Longrightarrow> \<not> condition1Active s \<Longrightarrow> startTime1 s = 0 \<Longrightarrow>
        \<not> condition1Active (checkCondition1_v2 s) \<and> startTime1 (checkCondition1_v2 s) = clock s"
    by (simp add: checkCondition1_v2_idle)
  show "\<not> condition1Active s \<Longrightarrow> \<forall>(v, t)\<in>set obs. in_band1_v2 v \<Longrightarrow>
        trace (ticks checkCondition1_v2 obs s)
          = trace s @ (if condition1Active (ticks checkCondition1_v2 obs s) then [DigitalWrite POWER_EN_PIN LOW, Delay 300] else [])" for obs
    using ticks1_v2_unlatched [of s obs] by (simp add: DURATION_THRESHOLD_1_v2_def DURATION_THRESHOLD_2_v2_def)
  show "\<not> condition1Active s \<Longrightarrow> startTime1 s \<noteq> 0 \<Longrightarrow> \<forall>(v, t)\<in>set obs. in_band1_v2 v \<Longrightarrow>
        condition1Active (ticks checkCondition1_v2 obs s) = (\<exists>(v, t)\<in>set obs. t - startTime1 s \<ge> 3000)"
    for obs
    using ticks1_v2_pending [of s obs] by (simp add: DURATION_THRESHOLD_1_v2_def DURATION_THRESHOLD_2_v2_def)
  show "condition1Active (at_tick v t s) = condition1Active s
        \<and> startTime1 (at_tick v t s) = startTime1 s" for v t
    by simp
qed

lemma band_occupancy_checkCondition2_v2:
  "band_occupancy checkCondition2_v2 in_band2_v2 condition2Active startTime2 300
     [DigitalWrite PREV_PIN_v2 HIGH, Delay 300] [DigitalWrite PREV_PIN_v2 LOW]"
proof (rule band_occupancyI)
  show "distinct ([DigitalWrite PREV_PIN_v2 HIGH, Delay 300] @ [DigitalWrite PREV_PIN_v2 LOW])"
    by (simp)
  fix s
  show "\<not> in_band2_v2 (filteredVoltage s) \<Longrightarrow>
         \<not> condition2Active (checkCondition2_v2 s) \<and> startTime2 (checkCondition2_v2 s) = 0
         \<and> trace (checkCondition2_v2 s)
             = trace s @ (if condition2Active s then [DigitalWrite PREV_PIN_v2 LOW] else [])"
    by (simp add: checkCondition2_v2_out digitalWrite_def)
  show "in_band2_v2 (filteredVoltage s) \<Longrightarrow> \<not> condition2Active s \<Longrightarrow> startTime2 s = 0 \<Longrightarrow>
        \<not> condition2Active (checkCondition2_v2 s) \<and> startTime2 (checkCondition2_v2 s) = clock s"
    by (simp add: checkCondition2_v2_idle)
  show "\<not> condition2Active s \<Longrightarrow> \<forall>(v, t)\<in>set obs. in_band2_v2 v \<Longrightarrow>
        trace (ticks checkCondition2_v2 obs s)
          = trace s @ (if condition2Active (ticks checkCondition2_v2 obs s) then [DigitalWrite PREV_PIN_v2 HIGH, Delay 300] else [])" for obs
    using ticks2_v2_unlatched [of s obs] by (simp add: DURATION_THRESHOLD_2_v2_def)
  show "\<not> condition2Active s \<Longrightarrow> startTime2 s \<noteq> 0 \<Longrightarrow> \<forall>(v, t)\<in>set obs. in_band2_v2 v \<Longrightarrow>
        condition2Active (ticks checkCondition2_v2 obs s) = (\<exists>(v, t)\<in>set obs. t - startTime2 s \<ge> 300)"
    for obs
    using ticks2_v2_pending [of s obs] by (simp add: DURATION_THRESHOLD_2_v2_def)
  show "condition2Active (at_tick v t s) = condition2Active s
        \<and> startTime2 (at_tick v t s) = startTime2 s" for v t
    by simp
qed

lemma band_occupancy_checkCondition3_v2:
  "band_occupancy checkCondition3_v2 in_band3_v2 condition3Active startTime3 300
     [DigitalWrite NEXT_PIN_v2 HIGH, Delay 300] [DigitalWrite NEXT_PIN_v2 LOW]"
proof (rule band_occupancyI)
  show "distinct ([DigitalWrite NEXT_PIN_v2 HIGH, Delay 300] @ [DigitalWrite NEXT_PIN_v2 LOW])"
    by (simp)
  fix s
  show "\<not> in_band3_v2 (filteredVoltage s) \<Longrightarrow>
         \<not> condition3Active (checkCondition3_v2 s) \<and> startTime3 (checkCondition3_v2 s) = 0
         \<and> trace (checkCondition3_v2 s)
             = trace s @ (if condition3Active s then [DigitalWrite NEXT_PIN_v2 LOW] else [])"
    by (simp add: checkCondition3_v2_out digitalWrite_def)
  show "in_band3_v2 (filteredVoltage s) \<Longrightarrow> \<not> condition3Active s \<Longrightarrow> startTime3 s = 0 \<Longrightarrow>
        \<not> condition3Active (checkCondition3_v2 s) \<and> startTime3 (checkCondition3_v2 s) = clock s"
    by (simp add: checkCondition3_v2_idle)
  show "\<not> condition3Active s \<Longrightarrow> \<forall>(v, t)\<in>set obs. in_band3_v2 v \<Longrightarrow>
        trace (ticks checkCondition3_v2 obs s)
          = trace s @ (if condition3Active (ticks checkCondition3_v2 obs s) then [DigitalWrite NEXT_PIN_v2 HIGH, Delay 300] else [])" for obs
    using ticks3_v2_unlatched [of s obs] by (simp add: DURATION_THRESHOLD_2_v2_def)
  show "\<not> condition3Active s \<Longrightarrow> startTime3 s \<noteq> 0 \<Longrightarrow> \<forall>(v, t)\<in>set obs. in_band3_v2 v \<Longrightarrow>
        condition3Active (ticks checkCondition3_v2 obs s) = (\<exists>(v, t)\<in>set obs. t - startTime3 s \<ge> 300)"
    for obs
    using ticks3_v2_pending [of s obs] by (simp add: DURATION_THRESHOLD_2_v2_def)
  show "condition3Active (at_tick v t s) = condition3Active s
        \<and> startTime3 (at_tick v t s) = startTime3 s" for v t
    by simp
qed

text \<open>
  Claim C2, amended: in every continuous occupancy of a band, each output of the band is
  driven active at most once and driven inactive at most once, and no write is repeated.
  For the six bands of the two sketches, over in-band ticks met with the flag clear and
  closed by an out-of-band tick: if the band latched during the occupancy, the writes
  are the one activation of its output (followed by the blocking delay, in the second
  sketch), made at the first tick that finds the hold time elapsed, and the one release
  of its output or outputs on the closing tick; if it did not, there is no write at
  all. The closing tick leaves the band idle. An occupancy that starts from the idle
  band, with the counter not at 0 at the entry tick, latches exactly when one of its
  later ticks comes at least the hold time after the entry tick.
\<close>

theorem occupancy_edges:
  "band_occupancy checkCondition1 in_band1 condition1Active startTime1 300
     [DigitalWrite MUTE_PIN HIGH] [DigitalWrite MUTE_PIN LOW, DigitalWrite RESET_PIN LOW]
   \<and> band_occupancy checkCondition2 in_band2 condition2Active startTime2 300
     [DigitalWrite PREV_PIN HIGH] [DigitalWrite PREV_PIN LOW]
   \<and> band_occupancy checkCondition3 in_band3 condition3Active startTime3 300
     [DigitalWrite NEXT_PIN HIGH] [DigitalWrite NEXT_PIN LOW]
   \<and> band_occupancy checkCondition1_v2 in_band1_v2 condition1Active startTime1 3000
     [DigitalWrite POWER_EN_PIN LOW, Delay 300] [DigitalWrite POWER_EN_PIN HIGH]
   \<and> band_occupancy checkCondition2_v2 in_band2_v2 condition2Active startTime2 300
     [DigitalWrite PREV_PIN_v2 HIGH, Delay 300] [DigitalWrite PREV_PIN_v2 LOW]
   \<and> band_occupancy checkCondition3_v2 in_band3_v2 condition3Active startTime3 300
     [DigitalWrite NEXT_PIN_v2 HIGH, Delay 300] [DigitalWrite NEXT_PIN_v2 LOW]"
  by (intro conjI)
    (fact band_occupancy_checkCondition1, fact band_occupancy_checkCondition2,
      fact band_occupancy_checkCondition3, fact band_occupancy_checkCondition1_v2,
      fact band_occupancy_checkCondition2_v2, fact band_occupancy_checkCondition3_v2)

text \<open>
  Witness for C2: occupancies that start from the idle band at 1000. PREV of the first
  sketch held for 320 ms, MUTE held for 4 s (RESET\_PIN is written only by the release),
  PREV of the second sketch held for 300 ms, and PREV of the first sketch held for
  20 ms, which writes nothing.
\<close>

theorem occupancy_edges_witness:
  "trace (ticks checkCondition2
       ([(24 / 10, 1000), (24 / 10, 1020), (24 / 10, 1300), (24 / 10, 1320)] @ [(2, 1340)])
       power_on)
     = [DigitalWrite PREV_PIN HIGH, DigitalWrite PREV_PIN LOW]
   \<and> trace (ticks checkCondition1
       ([(38 / 10, 1000), (38 / 10, 1020), (38 / 10, 5000)] @ [(2, 5020)]) power_on)
     = [DigitalWrite MUTE_PIN HIGH, DigitalWrite MUTE_PIN LOW, DigitalWrite RESET_PIN LOW]
   \<and> trace (ticks checkCondition2_v2
       ([(26 / 10, 1000), (26 / 10, 1010), (26 / 10, 1300)] @ [(2, 1310)]) power_on_v2)
     = [DigitalWrite PREV_PIN_v2 HIGH, Delay 300, DigitalWrite PREV_PIN_v2 LOW]
   \<and> trace (ticks checkCondition2
       ([(24 / 10, 1000), (24 / 10, 1020)] @ [(2, 1040)]) power_on) = []"
proof -
  let ?a = "[(24 / 10, 1000), (24 / 10, 1020), (24 / 10, 1300), (24 / 10, 1320)]
    :: (real \<times> 32 word) list"
  let ?b = "[(38 / 10, 1000), (38 / 10, 1020), (38 / 10, 5000)] :: (real \<times> 32 word) list"
  let ?c = "[(26 / 10, 1000), (26 / 10, 1010), (26 / 10, 1300)] :: (real \<times> 32 word) list"
  let ?d = "[(24 / 10, 1000), (24 / 10, 1020)] :: (real \<times> 32 word) list"
  have ha: "\<not> condition2Active power_on \<and> (\<forall>(v, t)\<in>set ?a. in_band2 v) \<and> \<not> in_band2 2"
    and hd: "\<not> condition2Active power_on \<and> (\<forall>(v, t)\<in>set ?d. in_band2 v) \<and> \<not> in_band2 2"
    by (simp_all add: power_on_def in_band2_def VOLTAGE_LOW_2_def VOLTAGE_HIGH_2_def)
  have hb: "\<not> condition1Active power_on \<and> (\<forall>(v, t)\<in>set ?b. in_band1 v) \<and> \<not> in_band1 2"
    by (simp add: power_on_def in_band1_def VOLTAGE_LOW_1_def VOLTAGE_HIGH_1_def)
  have hc: "\<not> condition2Active power_on_v2 \<and> (\<forall>(v, t)\<in>set ?c. in_band2_v2 v)
      \<and> \<not> in_band2_v2 2"
    by (simp add: power_on_v2_def in_band2_v2_def VOLTAGE_LOW_2_v2_def VOLTAGE_HIGH_2_v2_def)
  note e2 = occupancy_edges [THEN conjunct2, THEN conjunct1, unfolded band_occupancy_def,
      THEN conjunct2, rule_format]
  note ea = e2 [OF ha, of 1340] and ed = e2 [OF hd, of 1040]
  note eb = occupancy_edges [THEN conjunct1, unfolded band_occupancy_def,
      THEN conjunct2, rule_format, OF hb, of 5020]
  note ec = occupancy_edges [THEN conjunct2, THEN conjunct2, THEN conjunct2, THEN conjunct2,
      THEN conjunct1, unfolded band_occupancy_def, THEN conjunct2, rule_format, OF hc, of 1310]
  have z: "startTime2 power_on = 0" "trace power_on = []" "startTime1 power_on = 0"
    "startTime2 power_on_v2 = 0" "trace power_on_v2 = []"
    by (simp_all add: power_on_def power_on_v2_def)
  have la: "condition2Active (ticks checkCondition2 ?a power_on)"
    using ea [THEN conjunct2, THEN conjunct2, THEN conjunct2, THEN conjunct2, THEN conjunct2,
        rule_format, of "24 / 10" 1000 "[(24 / 10, 1020), (24 / 10, 1300), (24 / 10, 1320)]"]
      z by simp
  have ld: "\<not> condition2Active (ticks checkCondition2 ?d power_on)"
    using ed [THEN conjunct2, THEN conjunct2, THEN conjunct2, THEN conjunct2, THEN conjunct2,
        rule_format, of "24 / 10" 1000 "[(24 / 10, 1020)]"]
      z by simp
  have lb: "condition1Active (ticks checkCondition1 ?b power_on)"
    using eb [THEN conjunct2, THEN conjunct2, THEN conjunct2, THEN conjunct2, THEN conjunct2,
        rule_format, of "38 / 10" 1000 "[(38 / 10, 1020), (38 / 10, 5000)]"]
      z by simp
  have lc: "condition2Active (ticks checkCondition2_v2 ?c power_on_v2)"
    using ec [THEN conjunct2, THEN conjunct2, THEN conjunct2, THEN conjunct2, THEN conjunct2,
        rule_format, of "26 / 10" 1000 "[(26 / 10, 1010), (26 / 10, 1300)]"]
      z by simp
  from ea [THEN conjunct2, THEN conjunct1] ed [THEN conjunct2, THEN conjunct1]
    eb [THEN conjunct2, THEN conjunct1] ec [THEN conjunct2, THEN conjunct1] la lb lc ld z
  show ?thesis
    by (simp del: ticks_append ticks_Cons)
qed

subsection \<open>The hold time of a single-threshold band\<close>

text \<open>
  Claim C3 says that over in-band ticks at \<open>t\<^sub>0, t\<^sub>0 + \<Delta>, \<dots>\<close> the output of a band with
  hold time \<open>T\<close> goes active at the first tick with \<open>t - t\<^sub>0 \<ge> T\<close>. The NEXT band of the
  first sketch (\<open>T = 300\<close>) does not do so when the counter reads 0 at the entry tick:
  with ticks at 0, 100, 200, 300 and 400 the band is still not latched after the tick
  at 300 and latches at 400, because the time stored at the entry equals the value that
  means that no entry was recorded and the tick at 100 stores the entry again.
\<close>

theorem checkCondition3_entry_at_zero:
  "in_band3 (165 / 100)
   \<and> \<not> condition3Active (ticks checkCondition3
         [(165 / 100, 0), (165 / 100, 100), (165 / 100, 200), (165 / 100, 300)] power_on)
   \<and> condition3Active (ticks checkCondition3
         [(165 / 100, 0), (165 / 100, 100), (165 / 100, 200), (165 / 100, 300), (165 / 100, 400)] power_on)"
  by (simp add: checkCondition3_def power_on_def in_band3_def VOLTAGE_LOW_3_def
      VOLTAGE_HIGH_3_def DURATION_THRESHOLD_1_def board_defs Let_def)

text \<open>
  For every other entry time the band does what the claim says: from the idle state, with
  the entry tick at \<open>t\<^sub>0 \<noteq> 0\<close>, it is latched after a run of in-band ticks exactly
  when one of the ticks after the entry found \<open>t - t\<^sub>0 \<ge> 300\<close>. As this holds for every
  run it holds for each of its prefixes, so the latch happens at the first such tick.
\<close>

lemma checkCondition3_hold:
  assumes "\<not> condition3Active s" and "startTime3 s = 0" and "t0 \<noteq> 0"
    and "\<forall>(v, t)\<in>set ((v0, t0) # obs). in_band3 v"
  shows "condition3Active (ticks checkCondition3 ((v0, t0) # obs) s)
           = (\<exists>(v, t)\<in>set obs. t - t0 \<ge> 300)"
proof -
  let ?e = "(at_tick v0 t0 s)\<lparr>startTime3 := t0\<rparr>"
  have "checkCondition3 (at_tick v0 t0 s) = ?e"
    using assms by (simp add: checkCondition3_idle)
  moreover have "condition3Active (ticks checkCondition3 obs ?e)
      = (\<exists>(v, t)\<in>set obs. t - startTime3 ?e \<ge> DURATION_THRESHOLD_1)"
    using ticks3_pending [of ?e obs] assms by simp
  ultimately show ?thesis by (simp add: DURATION_THRESHOLD_1_def)
qed

subsection \<open>Leaving a band\<close>

text \<open>The band functions touch no other band's flag or start time; nor does \<^verbatim>\<open>delay\<close>.\<close>

lemma checkCondition1_others [simp]:
  "condition2Active (checkCondition1 s) = condition2Active s" "startTime2 (checkCondition1 s) = startTime2 s"
  "condition3Active (checkCondition1 s) = condition3Active s" "startTime3 (checkCondition1 s) = startTime3 s"
  by (simp_all add: checkCondition1_def board_defs Let_def)

lemma checkCondition2_others [simp]:
  "condition1Active (checkCondition2 s) = condition1Active s" "startTime1 (checkCondition2 s) = startTime1 s"
  "condition3Active (checkCondition2 s) = condition3Active s" "startTime3 (checkCondition2 s) = startTime3 s"
  by (simp_all add: checkCondition2_def board_defs Let_def)

lemma checkCondition3_others [simp]:
  "condition1Active (checkCondition3 s) = condition1Active s" "startTime1 (checkCondition3 s) = startTime1 s"
  "condition2Active (checkCondition3 s) = condition2Active s" "startTime2 (checkCondition3 s) = startTime2 s"
  by (simp_all add: checkCondition3_def board_defs Let_def)

lemma checkCondition1_v2_others [simp]:
  "condition2Active (checkCondition1_v2 s) = condition2Active s" "startTime2 (checkCondition1_v2 s) = startTime2 s"
  "condition3Active (checkCondition1_v2 s) = condition3Active s" "startTime3 (checkCondition1_v2 s) = startTime3 s"
  by (simp_all add: checkCondition1_v2_def board_defs Let_def)

lemma checkCondition2_v2_others [simp]:
  "condition1Active (checkCondition2_v2 s) = condition1Active s" "startTime1 (checkCondition2_v2 s) = startTime1 s"
  "condition3Active (checkCondition2_v2 s) = condition3Active s" "startTime3 (checkCondition2_v2 s) = startTime3 s"
  by (simp_all add: checkCondition2_v2_def board_defs Let_def)

lemma checkCondition3_v2_others [simp]:
  "condition1Active (checkCondition3_v2 s) = condition1Active s" "startTime1 (checkCondition3_v2 s) = startTime1 s"
  "condition2Active (checkCondition3_v2 s) = condition2Active s" "startTime2 (checkCondition3_v2 s) = startTime2 s"
  by (simp_all add: checkCondition3_v2_def board_defs Let_def)

lemma delay_bands [simp]:
  "condition1Active (delay d s) = condition1Active s" "startTime1 (delay d s) = startTime1 s"
  "condition2Active (delay d s) = condition2Active s" "startTime2 (delay d s) = startTime2 s"
  "condition3Active (delay d s) = condition3Active s" "startTime3 (delay d s) = startTime3 s"
  by (simp_all add: delay_def)

lemma loop_exit:
  "(\<not> in_band1 (filteredVoltage (loop i s)) \<longrightarrow>
      \<not> condition1Active (loop i s) \<and> startTime1 (loop i s) = 0)
   \<and> (\<not> in_band2 (filteredVoltage (loop i s)) \<longrightarrow>
      \<not> condition2Active (loop i s) \<and> startTime2 (loop i s) = 0)
   \<and> (\<not> in_band3 (filteredVoltage (loop i s)) \<longrightarrow>
      \<not> condition3Active (loop i s) \<and> startTime3 (loop i s) = 0)"
  by (cases i) (simp add: loop_def checkCondition1_out checkCondition2_out checkCondition3_out)

lemma loop_v2_exit:
  "(\<not> in_band1_v2 (filteredVoltage (loop_v2 i s)) \<longrightarrow>
      \<not> condition1Active (loop_v2 i s) \<and> startTime1 (loop_v2 i s) = 0)
   \<and> (\<not> in_band2_v2 (filteredVoltage (loop_v2 i s)) \<longrightarrow>
      \<not> condition2Active (loop_v2 i s) \<and> startTime2 (loop_v2 i s) = 0)
   \<and> (\<not> in_band3_v2 (filteredVoltage (loop_v2 i s)) \<longrightarrow>
      \<not> condition3Active (loop_v2 i s) \<and> startTime3 (loop_v2 i s) = 0)"
  by (cases i)
    (simp add: loop_v2_def checkCondition1_v2_out checkCondition2_v2_out checkCondition3_v2_out)

lemma band_exitI:
  assumes out: "\<And>s. \<not> inb (filteredVoltage s) \<Longrightarrow>
          \<not> act (f s) \<and> st (f s) = 0
          \<and> trace (f s) = trace s @ (if act s then map (\<lambda>(p, l). DigitalWrite p l) outs else [])
          \<and> (act s \<longrightarrow> (\<forall>(p, l)\<in>set outs. pins (f s) p = l))"
    and stay: "\<And>s. inb (filteredVoltage s) \<Longrightarrow> act s \<Longrightarrow> f s = s"
    and run: "\<And>s obs. act s \<Longrightarrow> \<forall>(v, t)\<in>set obs. inb v \<Longrightarrow>
          act (ticks f obs s) \<and> trace (ticks f obs s) = trace s"
    and frame: "\<And>v t s. act (at_tick v t s) = act s"
  shows "band_exit f inb act st outs"
proof -
  have multi: "\<not> act (ticks f (obs @ [(w, x)]) s) \<and> st (ticks f (obs @ [(w, x)]) s) = 0
          \<and> trace (ticks f (obs @ [(w, x)]) s) = trace s @ map (\<lambda>(p, l). DigitalWrite p l) outs
          \<and> (\<forall>(p, l)\<in>set outs. pins (ticks f (obs @ [(w, x)]) s) p = l)"
    if h: "act s \<and> (\<forall>(v, t)\<in>set obs. inb v) \<and> \<not> inb w" for s obs w x
  proof -
    let ?m = "ticks f obs s"
    have m: "act ?m" "trace ?m = trace s" using run [of s obs] h by simp_all
    have "\<not> inb (filteredVoltage (at_tick w x ?m))" using h by simp
    from out [OF this] m show ?thesis by (simp add: frame)
  qed
  have a: "\<forall>s. \<not> inb (filteredVoltage s) \<longrightarrow>
          \<not> act (f s) \<and> st (f s) = 0
          \<and> trace (f s) = trace s @ (if act s then map (\<lambda>(p, l). DigitalWrite p l) outs else [])
          \<and> (act s \<longrightarrow> (\<forall>(p, l)\<in>set outs. pins (f s) p = l))"
    using out by (intro allI impI)
  have b: "\<forall>s. inb (filteredVoltage s) \<and> act s \<longrightarrow> f s = s"
    using stay by (intro allI impI) (erule conjE)
  have c: "\<forall>s obs w x. act s \<and> (\<forall>(v, t)\<in>set obs. inb v) \<and> \<not> inb w \<longrightarrow>
          \<not> act (ticks f (obs @ [(w, x)]) s) \<and> st (ticks f (obs @ [(w, x)]) s) = 0
          \<and> trace (ticks f (obs @ [(w, x)]) s) = trace s @ map (\<lambda>(p, l). DigitalWrite p l) outs
          \<and> (\<forall>(p, l)\<in>set outs. pins (ticks f (obs @ [(w, x)]) s) p = l)"
    using multi by (intro allI impI)
  show ?thesis unfolding band_exit_def by (intro conjI) (fact a, fact b, fact c)
qed

lemma band_exit_checkCondition1:
  "band_exit checkCondition1 in_band1 condition1Active startTime1 [(MUTE_PIN, LOW), (RESET_PIN, LOW)]"
proof (rule band_exitI)
  fix s
  show "\<not> in_band1 (filteredVoltage s) \<Longrightarrow>
         \<not> condition1Active (checkCondition1 s) \<and> startTime1 (checkCondition1 s) = 0
         \<and> trace (checkCondition1 s)
             = trace s @ (if condition1Active s
                          then map (\<lambda>(p, l). DigitalWrite p l) [(MUTE_PIN, LOW), (RESET_PIN, LOW)] else [])
         \<and> (condition1Active s \<longrightarrow>
              (\<forall>(p, l)\<in>set [(MUTE_PIN, LOW), (RESET_PIN, LOW)]. pins (checkCondition1 s) p = l))"
    by (simp add: checkCondition1_out digitalWrite_def MUTE_PIN_def RESET_PIN_def)
  show "in_band1 (filteredVoltage s) \<Longrightarrow> condition1Active s \<Longrightarrow> checkCondition1 s = s"
    by (rule checkCondition1_latched)
  show "condition1Active s \<Longrightarrow> \<forall>(v, t)\<in>set obs. in_band1 v \<Longrightarrow>
        condition1Active (ticks checkCondition1 obs s) \<and> trace (ticks checkCondition1 obs s) = trace s" for obs
    using ticks1_latched [of s obs] by simp
  show "condition1Active (at_tick v t s) = condition1Active s" for v t
    by simp
qed

lemma band_exit_checkCondition2:
  "band_exit checkCondition2 in_band2 condition2Active startTime2 [(PREV_PIN, LOW)]"
proof (rule band_exitI)
  fix s
  show "\<not> in_band2 (filteredVoltage s) \<Longrightarrow>
         \<not> condition2Active (checkCondition2 s) \<and> startTime2 (checkCondition2 s) = 0
         \<and> trace (checkCondition2 s)
             = trace s @ (if condition2Active s
                          then map (\<lambda>(p, l). DigitalWrite p l) [(PREV_PIN, LOW)] else [])
         \<and> (condition2Active s \<longrightarrow>
              (\<forall>(p, l)\<in>set [(PREV_PIN, LOW)]. pins (checkCondition2 s) p = l))"
    by (simp add: checkCondition2_out digitalWrite_def)
  show "in_band2 (filteredVoltage s) \<Longrightarrow> condition2Active s \<Longrightarrow> checkCondition2 s = s"
    by (rule checkCondition2_latched)
  show "condition2Active s \<Longrightarrow> \<forall>(v, t)\<in>set obs. in_band2 v \<Longrightarrow>
        condition2Active (ticks checkCondition2 obs s) \<and> trace (ticks checkCondition2 obs s) = trace s" for obs
    using ticks2_latched [of s obs] by simp
  show "condition2Active (at_tick v t s) = condition2Active s" for v t
    by simp
qed

lemma band_exit_checkCondition3:
  "band_exit checkCondition3 in_band3 condition3Active startTime3 [(NEXT_PIN, LOW)]"
proof (rule band_exitI)
  fix s
  show "\<not> in_band3 (filteredVoltage s) \<Longrightarrow>
         \<not> condition3Active (checkCondition3 s) \<and> startTime3 (checkCondition3 s) = 0
         \<and> trace (checkCondition3 s)
             = trace s @ (if condition3Active s
                          then map (\<lambda>(p, l). DigitalWrite p l) [(NEXT_PIN, LOW)] else [])
         \<and> (condition3Active s \<longrightarrow>
              (\<forall>(p, l)\<in>set [(NEXT_PIN, LOW)]. pins (checkCondition3 s) p = l))"
    by (simp add: checkCondition3_out digitalWrite_def)
  show "in_band3 (filteredVoltage s) \<Longrightarrow> condition3Active s \<Longrightarrow> checkCondition3 s = s"
    by (rule checkCondition3_latched)
  show "condition3Active s \<Longrightarrow> \<forall>(v, t)\<in>set obs. in_band3 v \<Longrightarrow>
        condition3Active (ticks checkCondition3 obs s) \<and> trace (ticks checkCondition3 obs s) = trace s" for obs
    using ticks3_latched [of s obs] by simp
  show "condition3Active (at_tick v t s) = condition3Active s" for v t
    by simp
qed

lemma band_exit_checkCondition1_v2:
  "band_exit checkCondition1_v2 in_band1_v2 condition1Active startTime1 [(POWER_EN_PIN, HIGH)]"
proof (rule band_exitI)
  fix s
  show "\<not> in_band1_v2 (filteredVoltage s) \<Longrightarrow>
         \<not> condition1Active (checkCondition1_v2 s) \<and> startTime1 (checkCondition1_v2 s) = 0
         \<and> trace (checkCondition1_v2 s)
             = trace s @ (if condition1Active s
                          then map (\<lambda>(p, l). DigitalWrite p l) [(POWER_EN_PIN, HIGH)] else [])
         \<and> (condition1Active s \<longrightarrow>
              (\<forall>(p, l)\<in>set [(POWER_EN_PIN, HIGH)]. pins (checkCondition1_v2 s) p = l))"
    by (simp add: checkCondition1_v2_out digitalWrite_def)
  show "in_band1_v2 (filteredVoltage s) \<Longrightarrow> condition1Active s \<Longrightarrow> checkCondition1_v2 s = s"
    by (rule checkCondition1_v2_latched)
  show "condition1Active s \<Longrightarrow> \<forall>(v, t)\<in>set obs. in_band1_v2 v \<Longrightarrow>
        condition1Active (ticks checkCondition1_v2 obs s) \<and> trace (ticks checkCondition1_v2 obs s) = trace s" for obs
    using ticks1_v2_latched [of s obs] by simp
  show "condition1Active (at_tick v t s) = condition1Active s" for v t
    by simp
qed

lemma band_exit_checkCondition2_v2:
  "band_exit checkCondition2_v2 in_band2_v2 condition2Active startTime2 [(PREV_PIN_v2, LOW)]"
proof (rule band_exitI)
  fix s
  show "\<not> in_band2_v2 (filteredVoltage s) \<Longrightarrow>
         \<not> condition2Active (checkCondition2_v2 s) \<and> startTime2 (checkCondition2_v2 s) = 0
         \<and> trace (checkCondition2_v2 s)
             = trace s @ (if condition2Active s
                          then map (\<lambda>(p, l). DigitalWrite p l) [(PREV_PIN_v2, LOW)] else [])
         \<and> (condition2Active s \<longrightarrow>
              (\<forall>(p, l)\<in>set [(PREV_PIN_v2, LOW)]. pins (checkCondition2_v2 s) p = l))"
    by (simp add: checkCondition2_v2_out digitalWrite_def)
  show "in_band2_v2 (filteredVoltage s) \<Longrightarrow> condition2Active s \<Longrightarrow> checkCondition2_v2 s = s"
    by (rule checkCondition2_v2_latched)
  show "condition2Active s \<Longrightarrow> \<forall>(v, t)\<in>set obs. in_band2_v2 v \<Longrightarrow>
        condition2Active (ticks checkCondition2_v2 obs s) \<and> trace (ticks checkCondition2_v2 obs s) = trace s" for obs
    using ticks2_v2_latched [of s obs] by simp
  show "condition2Active (at_tick v t s) = condition2Active s" for v t
    by simp
qed

lemma band_exit_checkCondition3_v2:
  "band_exit checkCondition3_v2 in_band3_v2 condition3Active startTime3 [(NEXT_PIN_v2, LOW)]"
proof (rule band_exitI)
  fix s
  show "\<not> in_band3_v2 (filteredVoltage s) \<Longrightarrow>
         \<not> condition3Active (checkCondition3_v2 s) \<and> startTime3 (checkCondition3_v2 s) = 0
         \<and> trace (checkCondition3_v2 s)
             = trace s @ (if condition3Active s
                          then map (\<lambda>(p, l). DigitalWrite p l) [(NEXT_PIN_v2, LOW)] else [])
         \<and> (condition3Active s \<longrightarrow>
              (\<forall>(p, l)\<in>set [(NEXT_PIN_v2, LOW)]. pins (checkCondition3_v2 s) p = l))"
    by (simp add: checkCondition3_v2_out digitalWrite_def)
  show "in_band3_v2 (filteredVoltage s) \<Longrightarrow> condition3Active s \<Longrightarrow> checkCondition3_v2 s = s"
    by (rule checkCondition3_v2_latched)
  show "condition3Active s \<Longrightarrow> \<forall>(v, t)\<in>set obs. in_band3_v2 v \<Longrightarrow>
        condition3Active (ticks checkCondition3_v2 obs s) \<and> trace (ticks checkCondition3_v2 obs s) = trace s" for obs
    using ticks3_v2_latched [of s obs] by simp
  show "condition3Active (at_tick v t s) = condition3Active s" for v t
    by simp
qed

text \<open>
  Claim C4: a tick that finds the filtered voltage outside a band leaves that band with
  its flag false and its timer 0, and if the band was latched its output (both outputs,
  for the MUTE band of the first sketch) is driven to the inactive level on that tick,
  however many ticks the band spent latched; while the voltage stays in the band a
  latched band is not changed, so this is the only way out of the latched state. Stated
  for the six band functions, and for a whole pass of either loop.
\<close>

theorem exit_resets_and_releases:
  "band_exit checkCondition1 in_band1 condition1Active startTime1
     [(MUTE_PIN, LOW), (RESET_PIN, LOW)]
   \<and> band_exit checkCondition2 in_band2 condition2Active startTime2 [(PREV_PIN, LOW)]
   \<and> band_exit checkCondition3 in_band3 condition3Active startTime3 [(NEXT_PIN, LOW)]
   \<and> band_exit checkCondition1_v2 in_band1_v2 condition1Active startTime1 [(POWER_EN_PIN, HIGH)]
   \<and> band_exit checkCondition2_v2 in_band2_v2 condition2Active startTime2 [(PREV_PIN_v2, LOW)]
   \<and> band_exit checkCondition3_v2 in_band3_v2 condition3Active startTime3 [(NEXT_PIN_v2, LOW)]
   \<and> (\<not> in_band1 (filteredVoltage (loop i s)) \<longrightarrow>
        \<not> condition1Active (loop i s) \<and> startTime1 (loop i s) = 0)
   \<and> (\<not> in_band2 (filteredVoltage (loop i s)) \<longrightarrow>
        \<not> condition2Active (loop i s) \<and> startTime2 (loop i s) = 0)
   \<and> (\<not> in_band3 (filteredVoltage (loop i s)) \<longrightarrow>
        \<not> condition3Active (loop i s) \<and> startTime3 (loop i s) = 0)
   \<and> (\<not> in_band1_v2 (filteredVoltage (loop_v2 i s)) \<longrightarrow>
        \<not> condition1Active (loop_v2 i s) \<and> startTime1 (loop_v2 i s) = 0)
   \<and> (\<not> in_band2_v2 (filteredVoltage (loop_v2 i s)) \<longrightarrow>
        \<not> condition2Active (loop_v2 i s) \<and> startTime2 (loop_v2 i s) = 0)
   \<and> (\<not> in_band3_v2 (filteredVoltage (loop_v2 i s)) \<longrightarrow>
        \<not> condition3Active (loop_v2 i s) \<and> startTime3 (loop_v2 i s) = 0)"
  using band_exit_checkCondition1 band_exit_checkCondition2 band_exit_checkCondition3
    band_exit_checkCondition1_v2 band_exit_checkCondition2_v2 band_exit_checkCondition3_v2
    loop_exit [of i s] loop_v2_exit [of i s]
  by simp

text \<open>
  Witness for C4: the MUTE band latches at 1300, sees two more in-band ticks and is left
  at 1440; both outputs are then written LOW.
\<close>

theorem exit_resets_and_releases_witness:
  "condition1Active (ticks checkCondition1 [(38 / 10, 1000), (38 / 10, 1300)] power_on)
   \<and> in_band1 (38 / 10) \<and> \<not> in_band1 2
   \<and> trace (ticks checkCondition1 ([(38 / 10, 1400), (38 / 10, 1420)] @ [(2, 1440)])
        (ticks checkCondition1 [(38 / 10, 1000), (38 / 10, 1300)] power_on))
       = [DigitalWrite MUTE_PIN HIGH, DigitalWrite MUTE_PIN LOW, DigitalWrite RESET_PIN LOW]
   \<and> \<not> condition1Active (ticks checkCondition1 ([(38 / 10, 1400), (38 / 10, 1420)] @ [(2, 1440)])
        (ticks checkCondition1 [(38 / 10, 1000), (38 / 10, 1300)] power_on))"
proof -
  let ?s = "ticks checkCondition1 [(38 / 10, 1000), (38 / 10, 1300)] power_on"
  have a: "condition1Active ?s" and t: "trace ?s = [DigitalWrite MUTE_PIN HIGH]"
    by (simp_all add: checkCondition1_def power_on_def VOLTAGE_LOW_1_def VOLTAGE_HIGH_1_def
        DURATION_THRESHOLD_1_def DURATION_THRESHOLD_2_def board_defs)
  have b: "in_band1 (38 / 10)" and c: "\<not> in_band1 2"
    by (simp_all add: in_band1_def VOLTAGE_LOW_1_def VOLTAGE_HIGH_1_def)
  have e: "band_exit checkCondition1 in_band1 condition1Active startTime1
     [(MUTE_PIN, LOW), (RESET_PIN, LOW)]"
    using exit_resets_and_releases [of "(0, 0)" power_on] by simp
  note m = e [unfolded band_exit_def, THEN conjunct2, THEN conjunct2, rule_format,
      of ?s "[(38 / 10, 1400), (38 / 10, 1420)]" 2 1440]
  from m a b c t show ?thesis by (simp del: ticks_append ticks_Cons)
qed

subsection \<open>An entry tick at clock 0\<close>



subsection \<open>The blocking delay of the second sketch\<close>

text \<open>
  Claim C7: in the second sketch every change from pending to latched, of each of the
  three bands, writes the output to its active level and then calls \<^verbatim>\<open>delay(300)\<close>
  before the function returns: the two events are added to the trace in this order and
  the counter has advanced by 300 ms when the next band function, or the next pass, can
  run.
\<close>

theorem latch_blocks_v2:
  "(\<not> condition1Active s \<and> condition1Active (checkCondition1_v2 s) \<longrightarrow>
      trace (checkCondition1_v2 s) = trace s @ [DigitalWrite POWER_EN_PIN LOW, Delay 300]
      \<and> pins (checkCondition1_v2 s) POWER_EN_PIN = LOW
      \<and> millis (checkCondition1_v2 s) = millis s + 300)
   \<and> (\<not> condition2Active u \<and> condition2Active (checkCondition2_v2 u) \<longrightarrow>
      trace (checkCondition2_v2 u) = trace u @ [DigitalWrite PREV_PIN_v2 HIGH, Delay 300]
      \<and> pins (checkCondition2_v2 u) PREV_PIN_v2 = HIGH
      \<and> millis (checkCondition2_v2 u) = millis u + 300)
   \<and> (\<not> condition3Active w \<and> condition3Active (checkCondition3_v2 w) \<longrightarrow>
      trace (checkCondition3_v2 w) = trace w @ [DigitalWrite NEXT_PIN_v2 HIGH, Delay 300]
      \<and> pins (checkCondition3_v2 w) NEXT_PIN_v2 = HIGH
      \<and> millis (checkCondition3_v2 w) = millis w + 300)"
proof -
  have 1: "trace (checkCondition1_v2 s) = trace s @ [DigitalWrite POWER_EN_PIN LOW, Delay 300]
      \<and> pins (checkCondition1_v2 s) POWER_EN_PIN = LOW
      \<and> millis (checkCondition1_v2 s) = millis s + 300"
    if "\<not> condition1Active s \<and> condition1Active (checkCondition1_v2 s)"
    using that
    by (simp add: checkCondition1_v2_def board_defs Let_def DURATION_THRESHOLD_2_v2_def
        split: if_splits)
  have 2: "trace (checkCondition2_v2 u) = trace u @ [DigitalWrite PREV_PIN_v2 HIGH, Delay 300]
      \<and> pins (checkCondition2_v2 u) PREV_PIN_v2 = HIGH
      \<and> millis (checkCondition2_v2 u) = millis u + 300"
    if "\<not> condition2Active u \<and> condition2Active (checkCondition2_v2 u)"
    using that
    by (simp add: checkCondition2_v2_def board_defs Let_def DURATION_THRESHOLD_2_v2_def
        split: if_splits)
  have 3: "trace (checkCondition3_v2 w) = trace w @ [DigitalWrite NEXT_PIN_v2 HIGH, Delay 300]
      \<and> pins (checkCondition3_v2 w) NEXT_PIN_v2 = HIGH
      \<and> millis (checkCondition3_v2 w) = millis w + 300"
    if "\<not> condition3Active w \<and> condition3Active (checkCondition3_v2 w)"
    using that
    by (simp add: checkCondition3_v2_def board_defs Let_def DURATION_THRESHOLD_2_v2_def
        split: if_splits)
  from 1 2 3 show ?thesis by blast
qed

text \<open>Witness for C7: each of the three bands, pending since 1000, latching.\<close>

theorem latch_blocks_v2_witness:
  "trace (checkCondition1_v2 (at_tick (395 / 100) 4000 (power_on_v2\<lparr>startTime1 := 1000\<rparr>)))
     = [DigitalWrite POWER_EN_PIN LOW, Delay 300]
   \<and> millis (checkCondition1_v2 (at_tick (395 / 100) 4000 (power_on_v2\<lparr>startTime1 := 1000\<rparr>)))
     = 4300
   \<and> trace (checkCondition2_v2 (at_tick (262 / 100) 1300 (power_on_v2\<lparr>startTime2 := 1000\<rparr>)))
     = [DigitalWrite PREV_PIN_v2 HIGH, Delay 300]
   \<and> millis (checkCondition2_v2 (at_tick (262 / 100) 1300 (power_on_v2\<lparr>startTime2 := 1000\<rparr>)))
     = 1600
   \<and> trace (checkCondition3_v2 (at_tick (188 / 100) 1300 (power_on_v2\<lparr>startTime3 := 1000\<rparr>)))
     = [DigitalWrite NEXT_PIN_v2 HIGH, Delay 300]
   \<and> millis (checkCondition3_v2 (at_tick (188 / 100) 1300 (power_on_v2\<lparr>startTime3 := 1000\<rparr>)))
     = 1600"
proof -
  let ?s = "at_tick (395 / 100) 4000 (power_on_v2\<lparr>startTime1 := 1000\<rparr>)"
  let ?u = "at_tick (262 / 100) 1300 (power_on_v2\<lparr>startTime2 := 1000\<rparr>)"
  let ?w = "at_tick (188 / 100) 1300 (power_on_v2\<lparr>startTime3 := 1000\<rparr>)"
  have a: "\<not> condition1Active ?s \<and> condition1Active (checkCondition1_v2 ?s)"
    by (simp add: checkCondition1_v2_def power_on_v2_def at_tick_def board_defs
        VOLTAGE_LOW_1_v2_def VOLTAGE_HIGH_1_v2_def DURATION_THRESHOLD_1_v2_def)
  have b: "\<not> condition2Active ?u \<and> condition2Active (checkCondition2_v2 ?u)"
    by (simp add: checkCondition2_v2_def power_on_v2_def at_tick_def board_defs
        VOLTAGE_LOW_2_v2_def VOLTAGE_HIGH_2_v2_def DURATION_THRESHOLD_2_v2_def)
  have c: "\<not> condition3Active ?w \<and> condition3Active (checkCondition3_v2 ?w)"
    by (simp add: checkCondition3_v2_def power_on_v2_def at_tick_def board_defs
        VOLTAGE_LOW_3_v2_def VOLTAGE_HIGH_3_v2_def DURATION_THRESHOLD_2_v2_def)
  from latch_blocks_v2 [of ?s ?u ?w] a b c show ?thesis
    by (simp add: power_on_v2_def millis_def)
qed

section \<open>Whole runs\<close>

subsection \<open>Evaluating a run on given inputs\<close>

text \<open>
  The two loops over the buffer in closed form, and the rules that let the simplifier
  compute with list indices written as numerals.
\<close>

lemma fold_sum_nth:
  "fold (\<lambda>j acc. acc + xs ! j) [0..<n] (a::real) = a + (\<Sum>j<n. xs ! j)"
  by (induction n arbitrary: a) (simp_all add: algebra_simps)

lemma fold_sum_list:
  "n = length xs \<Longrightarrow> fold (\<lambda>j acc. acc + xs ! j) [0..<n] (0::real) = sum_list xs"
  by (simp add: fold_sum_nth sum_list_sum_nth atLeast0LessThan)

lemma zero_update_same: "\<forall>x\<in>set xs. x = (0::real) \<Longrightarrow> xs[i := 0] = xs"
  by (cases "i < length xs") (simp_all add: list_update_same_conv list_update_beyond)

lemma fold_zero_same:
  "\<forall>x\<in>set xs. x = (0::real) \<Longrightarrow> fold (\<lambda>i rs. rs[i := 0]) is xs = xs"
  by (induction "is") (simp_all add: zero_update_same)

lemma list_update_Cons_numeral:
  "(x # xs)[numeral v := y] = x # xs[pred_numeral v := y]"
  by (simp add: numeral_eq_Suc)

lemma replicate_numeral: "replicate (numeral v) x = x # replicate (pred_numeral v) x"
  by (simp add: numeral_eq_Suc)

lemmas eval_defs = readVoltage_def checkCondition1_def checkCondition2_def checkCondition3_def
    loop_def setup_sketch_def power_on_def INITIAL_DELAY_def
    board_defs Let_def numReadings_def fold_sum_list toVolts_def signed_modulo_int_def
    list_update_Cons_numeral replicate_numeral fold_zero_same
    VOLTAGE_LOW_1_def VOLTAGE_HIGH_1_def VOLTAGE_LOW_2_def VOLTAGE_HIGH_2_def
    VOLTAGE_LOW_3_def VOLTAGE_HIGH_3_def DURATION_THRESHOLD_1_def DURATION_THRESHOLD_2_def

lemmas eval_defs_v2 = readVoltage_v2_def checkCondition1_v2_def checkCondition2_v2_def
    checkCondition3_v2_def loop_v2_def setup_sketch_v2_def power_on_v2_def INITIAL_DELAY_v2_def
    board_defs Let_def NUM_READINGS_def fold_sum_list toVolts_def signed_modulo_int_def
    list_update_Cons_numeral replicate_numeral fold_zero_same
    VOLTAGE_LOW_1_v2_def VOLTAGE_HIGH_1_v2_def VOLTAGE_LOW_2_v2_def VOLTAGE_HIGH_2_v2_def
    VOLTAGE_LOW_3_v2_def VOLTAGE_HIGH_3_v2_def DURATION_THRESHOLD_1_v2_def
    DURATION_THRESHOLD_2_v2_def

subsection \<open>A latched band has an entry time\<close>

lemma checkCondition1_inv: "latched_has_entry s \<Longrightarrow> latched_has_entry (checkCondition1 s)"
  by (auto simp add: latched_has_entry_def checkCondition1_def board_defs Let_def)

lemma checkCondition2_inv: "latched_has_entry s \<Longrightarrow> latched_has_entry (checkCondition2 s)"
  by (auto simp add: latched_has_entry_def checkCondition2_def board_defs Let_def)

lemma checkCondition3_inv: "latched_has_entry s \<Longrightarrow> latched_has_entry (checkCondition3 s)"
  by (auto simp add: latched_has_entry_def checkCondition3_def board_defs Let_def)

lemma checkCondition1_v2_inv:
  "latched_has_entry s \<Longrightarrow> latched_has_entry (checkCondition1_v2 s)"
  by (auto simp add: latched_has_entry_def checkCondition1_v2_def board_defs Let_def)

lemma checkCondition2_v2_inv:
  "latched_has_entry s \<Longrightarrow> latched_has_entry (checkCondition2_v2 s)"
  by (auto simp add: latched_has_entry_def checkCondition2_v2_def board_defs Let_def)

lemma checkCondition3_v2_inv:
  "latched_has_entry s \<Longrightarrow> latched_has_entry (checkCondition3_v2 s)"
  by (auto simp add: latched_has_entry_def checkCondition3_v2_def board_defs Let_def)

lemma readVoltage_inv:
  "latched_has_entry s \<Longrightarrow> latched_has_entry (readVoltage r (s\<lparr>clock := c\<rparr>))"
  by (simp add: latched_has_entry_def readVoltage_def Let_def)

lemma readVoltage_v2_inv:
  "latched_has_entry s \<Longrightarrow> latched_has_entry (readVoltage_v2 r (s\<lparr>clock := c\<rparr>))"
  by (simp add: latched_has_entry_def readVoltage_v2_def Let_def)

lemma delay_inv: "latched_has_entry s \<Longrightarrow> latched_has_entry (delay d s)"
  by (simp add: latched_has_entry_def delay_def)

lemma loop_inv: "latched_has_entry s \<Longrightarrow> latched_has_entry (loop i s)"
  by (cases i) (simp add: loop_def delay_inv checkCondition3_inv checkCondition2_inv
      checkCondition1_inv readVoltage_inv)

lemma loop_v2_inv: "latched_has_entry s \<Longrightarrow> latched_has_entry (loop_v2 i s)"
  by (cases i) (simp add: loop_v2_def delay_inv checkCondition3_v2_inv checkCondition2_v2_inv
      checkCondition1_v2_inv readVoltage_v2_inv)

lemma setup_inv: "latched_has_entry (setup_sketch power_on)"
  by (simp add: latched_has_entry_def setup_sketch_def power_on_def board_defs Let_def)

lemma setup_v2_inv: "latched_has_entry (setup_sketch_v2 power_on_v2)"
  by (simp add: latched_has_entry_def setup_sketch_v2_def power_on_v2_def board_defs Let_def)

text \<open>
  Claim C8: in both sketches, from the initial state (all flags false, all timers 0)
  and after start-up and every pass of the loop, whatever the samples and the time that
  passes, a band whose flag is set has a start time other than 0.
\<close>

theorem latched_has_entry_run:
  "latched_has_entry power_on \<and> latched_has_entry power_on_v2
   \<and> latched_has_entry (run ins) \<and> latched_has_entry (run_v2 ins)"
proof -
  have "latched_has_entry (run ins)"
    unfolding run_def by (induction ins rule: rev_induct) (simp_all add: setup_inv loop_inv)
  moreover have "latched_has_entry (run_v2 ins)"
    unfolding run_v2_def
    by (induction ins rule: rev_induct) (simp_all add: setup_v2_inv loop_v2_inv)
  ultimately show ?thesis
    by (simp add: latched_has_entry_def power_on_def power_on_v2_def)
qed

text \<open>
  Witness for C8: runs that end with NEXT latched. First sketch: four samples of 800
  bring the mean to 1.5625 V, and a fifth pass 320 ms later latches. Second sketch: two
  samples of 1000 bring the mean to 1.953 V, and a third pass 310 ms later latches.
\<close>

theorem latched_has_entry_run_witness:
  "condition3Active (run [(800, 0), (800, 0), (800, 0), (800, 0), (0, 300)])
   \<and> startTime3 (run [(800, 0), (800, 0), (800, 0), (800, 0), (0, 300)]) \<noteq> 0
   \<and> condition3Active (run_v2 [(1000, 0), (1000, 0), (0, 300)])
   \<and> startTime3 (run_v2 [(1000, 0), (1000, 0), (0, 300)]) \<noteq> 0"
proof -
  have a: "condition3Active (run [(800, 0), (800, 0), (800, 0), (800, 0), (0, 300)])"
    by (simp add: run_def eval_defs)
  have b: "condition3Active (run_v2 [(1000, 0), (1000, 0), (0, 300)])"
    by (simp add: run_v2_def eval_defs_v2)
  from latched_has_entry_run [of "[(800, 0), (800, 0), (800, 0), (800, 0), (0, 300)]"]
    latched_has_entry_run [of "[(1000, 0), (1000, 0), (0, 300)]"] a b
  show ?thesis by (simp add: latched_has_entry_def)
qed

subsection \<open>Warm-up of the filter\<close>

text \<open>
  While the same sample is fed into a zeroed buffer from slot 0, the buffer holds that
  sample's voltage in its first slots and zeros in the others.
\<close>

lemma fill_update:
  "n < N \<Longrightarrow> (replicate n v @ replicate (N - n) (0::real))[n := v]
     = replicate (Suc n) v @ replicate (N - Suc n) 0"
proof -
  assume "n < N"
  then obtain m where m: "N - n = Suc m" by (cases "N - n") auto
  then have "N - Suc n = m" by simp
  with m show ?thesis by (simp add: list_update_append replicate_append_same)
qed

lemma fill_sum: "sum_list (replicate k v @ replicate m (0::real)) = real k * v"
  by (simp add: sum_list_replicate)

lemma readVoltage_fill:
  assumes "readings s = replicate n (toVolts r) @ replicate (numReadings - n) 0"
    and "readIndex s = int n" and "n < numReadings"
  shows "readings (readVoltage r s)
           = replicate (Suc n) (toVolts r) @ replicate (numReadings - Suc n) 0
   \<and> readIndex (readVoltage r s) = int (Suc n) mod int numReadings
   \<and> filteredVoltage (readVoltage r s) = real (Suc n) * toVolts r / real numReadings"
proof -
  have rs: "readings (readVoltage r s)
      = replicate (Suc n) (toVolts r) @ replicate (numReadings - Suc n) 0"
    using assms by (simp add: readVoltage_readings fill_update)
  have len: "numReadings = length (readings (readVoltage r s))"
    using assms(3) by (simp add: rs)
  have "filteredVoltage (readVoltage r s)
      = sum_list (readings (readVoltage r s)) / real numReadings"
    using fold_sum_list [OF len] by (simp add: readVoltage_def Let_def)
  then have "filteredVoltage (readVoltage r s) = real (Suc n) * toVolts r / real numReadings"
    by (simp only: rs fill_sum)
  moreover have "readIndex (readVoltage r s) = int (Suc n) mod int numReadings"
    using assms(2) smod_step [of "int n" "int numReadings"]
    by (simp add: readVoltage_readIndex numReadings_def add.commute)
  ultimately show ?thesis using rs by simp
qed

lemma warm_up_funpow:
  assumes "readings s = replicate numReadings 0" and "readIndex s = 0"
  shows "k \<le> numReadings \<Longrightarrow>
     readings ((readVoltage r ^^ k) s)
       = replicate k (toVolts r) @ replicate (numReadings - k) 0
   \<and> readIndex ((readVoltage r ^^ k) s) = int k mod int numReadings
   \<and> (0 < k \<longrightarrow> filteredVoltage ((readVoltage r ^^ k) s)
                    = real k * toVolts r / real numReadings)"
proof (induction k)
  case 0
  then show ?case using assms by simp
next
  case (Suc k)
  then have k: "k < numReadings" by simp
  with Suc.IH have "readings ((readVoltage r ^^ k) s)
       = replicate k (toVolts r) @ replicate (numReadings - k) 0"
    and "readIndex ((readVoltage r ^^ k) s) = int k" by simp_all
  from readVoltage_fill [OF this k] show ?case by simp
qed

lemma setup_buffer:
  "readings (setup_sketch power_on) = replicate numReadings 0"
  "readIndex (setup_sketch power_on) = 0" "filteredVoltage (setup_sketch power_on) = 0"
  by (simp_all add: setup_sketch_def power_on_def board_defs Let_def fold_zero_same)

lemma warm_up_run:
  "length es \<le> numReadings \<Longrightarrow>
     readings (run (map (Pair r) es))
       = replicate (length es) (toVolts r) @ replicate (numReadings - length es) 0
   \<and> readIndex (run (map (Pair r) es)) = int (length es) mod int numReadings
   \<and> filteredVoltage (run (map (Pair r) es))
        = real (length es) * toVolts r / real numReadings"
proof (induction es rule: rev_induct)
  case Nil
  then show ?case by (simp add: run_def setup_buffer)
next
  case (snoc e es)
  then have k: "length es < numReadings" by simp
  let ?s = "run (map (Pair r) es)"
  from k snoc.IH have "readings ?s
       = replicate (length es) (toVolts r) @ replicate (numReadings - length es) 0"
    and "readIndex ?s = int (length es)" by simp_all
  from readVoltage_fill [OF this k]
  have f: "readings (readVoltage r ?s)
           = replicate (Suc (length es)) (toVolts r) @ replicate (numReadings - Suc (length es)) 0
   \<and> readIndex (readVoltage r ?s) = int (Suc (length es)) mod int numReadings
   \<and> filteredVoltage (readVoltage r ?s) = real (Suc (length es)) * toVolts r / real numReadings" .
  have "run (map (Pair r) (es @ [e])) = loop (r, e) ?s" by (simp add: run_def)
  with f show ?case by (simp add: loop_buffer del: of_nat_Suc)
qed

lemma readVoltage_v2_fill:
  assumes "readings s = replicate n (toVolts r) @ replicate (NUM_READINGS - n) 0"
    and "readIndex s = int n" and "n < NUM_READINGS"
  shows "readings (readVoltage_v2 r s)
           = replicate (Suc n) (toVolts r) @ replicate (NUM_READINGS - Suc n) 0
   \<and> readIndex (readVoltage_v2 r s) = int (Suc n) mod int NUM_READINGS
   \<and> filteredVoltage (readVoltage_v2 r s) = real (Suc n) * toVolts r / real NUM_READINGS"
proof -
  have rs: "readings (readVoltage_v2 r s)
      = replicate (Suc n) (toVolts r) @ replicate (NUM_READINGS - Suc n) 0"
    using assms by (simp add: readVoltage_v2_readings fill_update)
  have len: "NUM_READINGS = length (readings (readVoltage_v2 r s))"
    using assms(3) by (simp add: rs)
  have "filteredVoltage (readVoltage_v2 r s)
      = sum_list (readings (readVoltage_v2 r s)) / real NUM_READINGS"
    using fold_sum_list [OF len] by (simp add: readVoltage_v2_def Let_def)
  then have "filteredVoltage (readVoltage_v2 r s) = real (Suc n) * toVolts r / real NUM_READINGS"
    by (simp only: rs fill_sum)
  moreover have "readIndex (readVoltage_v2 r s) = int (Suc n) mod int NUM_READINGS"
    using assms(2) smod_step [of "int n" "int NUM_READINGS"]
    by (simp add: readVoltage_v2_readIndex NUM_READINGS_def add.commute)
  ultimately show ?thesis using rs by simp
qed

lemma warm_up_funpow_v2:
  assumes "readings s = replicate NUM_READINGS 0" and "readIndex s = 0"
  shows "k \<le> NUM_READINGS \<Longrightarrow>
     readings ((readVoltage_v2 r ^^ k) s)
       = replicate k (toVolts r) @ replicate (NUM_READINGS - k) 0
   \<and> readIndex ((readVoltage_v2 r ^^ k) s) = int k mod int NUM_READINGS
   \<and> (0 < k \<longrightarrow> filteredVoltage ((readVoltage_v2 r ^^ k) s)
                    = real k * toVolts r / real NUM_READINGS)"
proof (induction k)
  case 0
  then show ?case using assms by simp
next
  case (Suc k)
  then have k: "k < NUM_READINGS" by simp
  with Suc.IH have "readings ((readVoltage_v2 r ^^ k) s)
       = replicate k (toVolts r) @ replicate (NUM_READINGS - k) 0"
    and "readIndex ((readVoltage_v2 r ^^ k) s) = int k" by simp_all
  from readVoltage_v2_fill [OF this k] show ?case by simp
qed

lemma setup_v2_buffer:
  "readings (setup_sketch_v2 power_on_v2) = replicate NUM_READINGS 0"
  "readIndex (setup_sketch_v2 power_on_v2) = 0" "filteredVoltage (setup_sketch_v2 power_on_v2) = 0"
  by (simp_all add: setup_sketch_v2_def power_on_v2_def board_defs Let_def fold_zero_same)

lemma warm_up_run_v2:
  "length es \<le> NUM_READINGS \<Longrightarrow>
     readings (run_v2 (map (Pair r) es))
       = replicate (length es) (toVolts r) @ replicate (NUM_READINGS - length es) 0
   \<and> readIndex (run_v2 (map (Pair r) es)) = int (length es) mod int NUM_READINGS
   \<and> filteredVoltage (run_v2 (map (Pair r) es))
        = real (length es) * toVolts r / real NUM_READINGS"
proof (induction es rule: rev_induct)
  case Nil
  then show ?case by (simp add: run_v2_def setup_v2_buffer)
next
  case (snoc e es)
  then have k: "length es < NUM_READINGS" by simp
  let ?s = "run_v2 (map (Pair r) es)"
  from k snoc.IH have "readings ?s
       = replicate (length es) (toVolts r) @ replicate (NUM_READINGS - length es) 0"
    and "readIndex ?s = int (length es)" by simp_all
  from readVoltage_v2_fill [OF this k]
  have f: "readings (readVoltage_v2 r ?s)
           = replicate (Suc (length es)) (toVolts r) @ replicate (NUM_READINGS - Suc (length es)) 0
   \<and> readIndex (readVoltage_v2 r ?s) = int (Suc (length es)) mod int NUM_READINGS
   \<and> filteredVoltage (readVoltage_v2 r ?s) = real (Suc (length es)) * toVolts r / real NUM_READINGS" .
  have "run_v2 (map (Pair r) (es @ [e])) = loop_v2 (r, e) ?s" by (simp add: run_v2_def)
  with f show ?case by (simp add: loop_v2_buffer del: of_nat_Suc)
qed

text \<open>
  Claim C5: from the zero-initialised buffer of capacity \<open>N\<close> (10 in the first sketch, 5
  in the second; the write index starts at 0), feeding the same raw reading on every
  tick gives, after \<open>k \<le> N\<close> ticks, the filtered voltage \<open>k v / N\<close>, where \<open>v\<close> is the
  reading's voltage; on the \<open>N\<close>th tick this is \<open>v\<close>. Stated for the runs of both
  sketches, whatever time passes between the passes, and for \<open>k\<close> calls of the filter
  alone from any state with such a buffer.
\<close>

theorem filter_warm_up:
  assumes "length es \<le> numReadings" and "length es' \<le> NUM_READINGS"
  shows "filteredVoltage (run (map (Pair r) es))
           = real (length es) * toVolts r / real numReadings
   \<and> (length es = numReadings \<longrightarrow> filteredVoltage (run (map (Pair r) es)) = toVolts r)
   \<and> filteredVoltage (run_v2 (map (Pair r) es'))
           = real (length es') * toVolts r / real NUM_READINGS
   \<and> (length es' = NUM_READINGS \<longrightarrow> filteredVoltage (run_v2 (map (Pair r) es')) = toVolts r)
   \<and> (\<forall>s k. readings s = replicate numReadings 0 \<and> readIndex s = 0
          \<and> 0 < k \<and> k \<le> numReadings \<longrightarrow>
        filteredVoltage ((readVoltage r ^^ k) s) = real k * toVolts r / real numReadings)
   \<and> (\<forall>s k. readings s = replicate NUM_READINGS 0 \<and> readIndex s = 0
          \<and> 0 < k \<and> k \<le> NUM_READINGS \<longrightarrow>
        filteredVoltage ((readVoltage_v2 r ^^ k) s) = real k * toVolts r / real NUM_READINGS)"
proof -
  have a: "filteredVoltage (run (map (Pair r) es))
      = real (length es) * toVolts r / real numReadings"
    using warm_up_run [OF assms(1), of r] by simp
  have b: "filteredVoltage (run_v2 (map (Pair r) es'))
      = real (length es') * toVolts r / real NUM_READINGS"
    using warm_up_run_v2 [OF assms(2), of r] by simp
  have a': "length es = numReadings \<longrightarrow> filteredVoltage (run (map (Pair r) es)) = toVolts r"
    using a by (auto simp add: numReadings_def)
  have b': "length es' = NUM_READINGS \<longrightarrow>
      filteredVoltage (run_v2 (map (Pair r) es')) = toVolts r"
    using b by (auto simp add: NUM_READINGS_def)
  have c: "\<forall>s k. readings s = replicate numReadings 0 \<and> readIndex s = 0
          \<and> 0 < k \<and> k \<le> numReadings \<longrightarrow>
        filteredVoltage ((readVoltage r ^^ k) s) = real k * toVolts r / real numReadings"
  proof (intro allI impI)
    fix s :: state and k
    assume "readings s = replicate numReadings 0 \<and> readIndex s = 0
          \<and> 0 < k \<and> k \<le> numReadings"
    then show "filteredVoltage ((readVoltage r ^^ k) s)
        = real k * toVolts r / real numReadings"
      using warm_up_funpow [of s k r] by simp
  qed
  have d: "\<forall>s k. readings s = replicate NUM_READINGS 0 \<and> readIndex s = 0
          \<and> 0 < k \<and> k \<le> NUM_READINGS \<longrightarrow>
        filteredVoltage ((readVoltage_v2 r ^^ k) s) = real k * toVolts r / real NUM_READINGS"
  proof (intro allI impI)
    fix s :: state and k
    assume "readings s = replicate NUM_READINGS 0 \<and> readIndex s = 0
          \<and> 0 < k \<and> k \<le> NUM_READINGS"
    then show "filteredVoltage ((readVoltage_v2 r ^^ k) s)
        = real k * toVolts r / real NUM_READINGS"
      using warm_up_funpow_v2 [of s k r] by simp
  qed
  from a a' b b' c d show ?thesis by (intro conjI)
qed

text \<open>
  Witness for C5: the reading 512 (2.5 V) gives 0.75 V after three passes of the first
  sketch, 1.5 V after three of the second, and 2.5 V once the buffer is full.
\<close>

theorem filter_warm_up_witness:
  "filteredVoltage (run (map (Pair 512) [0, 0, 0])) = 3 / 4
   \<and> filteredVoltage (run (map (Pair 512) [0, 0, 0, 0, 0, 0, 0, 0, 0, 0])) = 5 / 2
   \<and> filteredVoltage (run_v2 (map (Pair 512) [0, 0, 0])) = 3 / 2
   \<and> filteredVoltage (run_v2 (map (Pair 512) [0, 0, 0, 0, 0])) = 5 / 2
   \<and> filteredVoltage ((readVoltage 512 ^^ 10) power_on) = 5 / 2"
proof -
  have l: "length [0, 0, 0 :: 32 word] \<le> numReadings"
    "length [0, 0, 0 :: 32 word] \<le> NUM_READINGS"
    "length [0, 0, 0, 0, 0, 0, 0, 0, 0, 0 :: 32 word] \<le> numReadings"
    "length [0, 0, 0, 0, 0 :: 32 word] \<le> NUM_READINGS"
    by (simp_all add: numReadings_def NUM_READINGS_def)
  note short = filter_warm_up [OF l(1) l(2), of 512]
  note full = filter_warm_up [OF l(3) l(4), of 512]
  have p: "readings power_on = replicate numReadings 0 \<and> readIndex power_on = 0
      \<and> 0 < (10::nat) \<and> 10 \<le> numReadings"
    by (simp add: power_on_def numReadings_def)
  have "filteredVoltage ((readVoltage 512 ^^ 10) power_on)
      = real 10 * toVolts 512 / real numReadings"
    using full p by blast
  moreover have "filteredVoltage (run (map (Pair 512) [0, 0, 0])) = 3 / 4"
    "filteredVoltage (run_v2 (map (Pair 512) [0, 0, 0])) = 3 / 2"
    using short by (simp_all add: numReadings_def NUM_READINGS_def toVolts_def)
  moreover have "filteredVoltage (run (map (Pair 512) [0, 0, 0, 0, 0, 0, 0, 0, 0, 0])) = 5 / 2"
    "filteredVoltage (run_v2 (map (Pair 512) [0, 0, 0, 0, 0])) = 5 / 2"
    using full by (simp_all add: numReadings_def NUM_READINGS_def toVolts_def)
  ultimately show ?thesis by (simp add: numReadings_def toVolts_def)
qed

end
